theory Spec2Isabelle
  imports Complex_Main
begin

text \<open>
  A model of the two notebooks \<open>chatbot.ipynb\<close> and \<open>conversation.ipynb\<close>: the chunker, the
  vector index with its retriever, the single-turn chat, and the two conversation memories
  (a list, and a cache with a capacity and a time to live). Python functions are functions
  on an explicit state; an exception is a result \<open>Inl\<close>, returned with the state reached when
  it was raised.
\<close>

section \<open>Python strings\<close>

text \<open>
  Python strings are modelled as HOL strings; a character stands for a code point below 256.
  \<open>is_space\<close> lists the characters of that range for which \<open>str.isspace()\<close> holds: they are
  the separators of \<open>str.split()\<close> and what \<open>str.strip()\<close> removes.
\<close>

definition is_space :: "char \<Rightarrow> bool" where
  "is_space c = (c \<in> set [CHR 0x09, CHR 0x0A, CHR 0x0B, CHR 0x0C, CHR 0x0D,
                            CHR 0x1C, CHR 0x1D, CHR 0x1E, CHR 0x1F, CHR 0x20,
                            CHR 0x85, CHR 0xA0])"

text \<open>\<open>s.split()\<close>: the maximal runs of non-whitespace characters, in order.\<close>

fun split_ws :: "string \<Rightarrow> string \<Rightarrow> string list" where
  "split_ws w [] = (if w = [] then [] else [w])"
| "split_ws w (c # cs) =
     (if is_space c then (if w = [] then split_ws [] cs else w # split_ws [] cs)
      else split_ws (w @ [c]) cs)"

definition py_split :: "string \<Rightarrow> string list" where
  "py_split s = split_ws [] s"

text \<open>\<open>sep.join(xs)\<close>.\<close>

fun py_join :: "string \<Rightarrow> string list \<Rightarrow> string" where
  "py_join sep [] = []"
| "py_join sep [x] = x"
| "py_join sep (x # y # ys) = x @ sep @ py_join sep (y # ys)"

text \<open>\<open>s.strip()\<close>.\<close>

definition py_strip :: "string \<Rightarrow> string" where
  "py_strip s = rev (dropWhile is_space (rev (dropWhile is_space s)))"

section \<open>External collaborators\<close>

text \<open>
  The notebooks call libraries that are not part of the repository: NLTK's sentence
  tokenizer and Porter stemmer, scikit-learn's \<open>TfidfVectorizer\<close>, numpy's \<open>argsort\<close>, the
  Cohere client and the file readers. They are parameters of the model, collected in one
  record, and every theorem below holds for all of them, under the hypotheses it states.
  \<^item> \<open>sent_tokenize\<close> and \<open>ps_stem\<close> are \<open>nltk.tokenize.sent_tokenize\<close> and \<open>ps.stem\<close>.
  \<^item> \<open>fit docs\<close> is the model \<open>fit_transform\<close> fits on \<open>docs\<close>, or \<open>None\<close> where it raises
    \<open>ValueError\<close> (empty vocabulary); \<open>vec m d\<close> is the row of the term-weight matrix for
    the text \<open>d\<close> under the fitted model \<open>m\<close>; \<open>dot q d\<close> is the entry of the product
    \<open>query_vector * vectors.T\<close> for the rows \<open>q\<close> and \<open>d\<close>. Similarities are values of a
    linear order (the weights of TF-IDF are never NaN).
  \<^item> \<open>argsort row\<close> is \<open>ndarray.argsort()\<close> on one row of the similarity matrix: the indices
    of the row, ordered by ascending value. In which order it leaves indices of equal value
    is not fixed (numpy's default sort is not stable); see \<open>is_argsort\<close> below.
  \<^item> \<open>co_chat\<close> is \<open>co.chat\<close> followed by \<open>response.message.content[0].text\<close>; \<open>Inl\<close> is an
    exception raised by the call.
  \<^item> \<open>file_text file_type file_path\<close> is the text the reader of that type extracts.
\<close>

datatype error =
  NotFittedError | AttributeError | IndexError | ValueError | KeyError | UpstreamError

type_synonym message = "string \<times> string"

record ('m, 'v, 's) libs =
  sent_tokenize :: "string \<Rightarrow> string list"
  ps_stem :: "string \<Rightarrow> string"
  fit :: "string list \<Rightarrow> 'm option"
  vec :: "'m \<Rightarrow> string \<Rightarrow> 'v"
  dot :: "'v \<Rightarrow> 'v \<Rightarrow> 's"
  argsort :: "'s list \<Rightarrow> nat list"
  co_chat :: "message list \<Rightarrow> error + string"
  file_text :: "string \<Rightarrow> string \<Rightarrow> string"

section \<open>Chunker: \<open>process_text\<close>\<close>

definition NUMBER_OF_MATCHES :: int where
  "NUMBER_OF_MATCHES = 3"

definition CHUNK_SIZE :: int where
  "CHUNK_SIZE = 99999"

text \<open>\<open>' '.join([ps.stem(word) for word in chunk.split()])\<close>\<close>

definition stem_chunk :: "('m, 'v, 's) libs \<Rightarrow> string \<Rightarrow> string" where
  "stem_chunk env chunk = py_join '' '' (map (ps_stem env) (py_split chunk))"

text \<open>
  The \<open>for sentence in sentences\<close> loop of \<open>process_text\<close>; the accumulator holds
  \<open>original_chunks\<close>, \<open>processed_chunks\<close> and \<open>chunk\<close>.
\<close>

fun chunk_loop ::
  "('m, 'v, 's) libs \<Rightarrow> int \<Rightarrow> string list \<Rightarrow> string list \<times> string list \<times> string
     \<Rightarrow> string list \<times> string list \<times> string" where
  "chunk_loop env chunk_size [] acc = acc"
| "chunk_loop env chunk_size (sentence # rest) (original_chunks, processed_chunks, chunk) =
     (if int (length chunk) + int (length sentence) > chunk_size
      then chunk_loop env chunk_size rest
             (original_chunks @ [chunk], processed_chunks @ [stem_chunk env chunk], sentence)
      else chunk_loop env chunk_size rest
             (original_chunks, processed_chunks, chunk @ '' '' @ sentence))"

definition process_text ::
  "('m, 'v, 's) libs \<Rightarrow> string \<Rightarrow> int \<Rightarrow> string list \<times> string list" where
  "process_text env text chunk_size =
     (case chunk_loop env chunk_size (sent_tokenize env text) ([], [], []) of
        (original_chunks, processed_chunks, chunk) \<Rightarrow>
          if chunk \<noteq> []
          then (original_chunks @ [chunk], processed_chunks @ [stem_chunk env chunk])
          else (original_chunks, processed_chunks))"

section \<open>Vector index and retriever\<close>

text \<open>
  The module-level variables of the notebooks are the fields of one record, passed through
  every operation. \<open>vectorizer\<close> is the fitted state of the \<open>TfidfVectorizer\<close> object (\<open>None\<close>
  until the first successful \<open>fit_transform\<close>); \<open>vectors\<close> is the global of that name
  (\<open>None\<close> is Python's \<open>None\<close>, otherwise the rows of the matrix, one per fitted text).
  \<open>calls\<close> records, in order, each call of \<open>find_best_matches\<close> and each request sent to
  the text-generation service, so that theorems can speak about them.
\<close>

record conversation_entry =
  user_input :: string
  search_result_context :: string
  llm_response :: string
  timestamp :: "string option"

datatype call = is_FindBestMatches: FindBestMatches string int | is_CoChat: CoChat "message list"

text \<open>
  Modelled from the spec: the class \<open>TTLCache\<close> of the library \<open>cachetools\<close>, which the
  notebook instantiates with \<open>maxsize=1000\<close> and \<open>ttl=1800\<close>, is not among the sources. The
  model covers what the notebook uses, item assignment and \<open>values()\<close>, and keeps what the
  spec says of the time-bounded memory: a capacity, the oldest entry evicted first when the
  capacity is reached, an entry valid for a fixed duration from its creation, validity
  evaluated when the memory is read, entries returned in insertion order. As in any mapping,
  a value assigned under an existing key replaces the old one.
  \<open>links\<close> holds one triple (key, value, expiry time) per stored item, oldest first. An
  item is valid at a clock reading below its expiry time. Clock readings
  (\<open>time.monotonic()\<close>) are real numbers of seconds and are passed to each operation.
  Whether an expired item is still stored cannot be observed through the two operations;
  the model removes expired items in item assignment.
\<close>

record ('k, 'a) ttl_cache =
  maxsize :: nat
  ttl :: real
  links :: "('k \<times> 'a \<times> real) list"

record ('m, 'v) world =
  documents :: "string list"
  original_documents :: "string list"
  vectors :: "'v list option"
  vectorizer :: "'m option"
  conversation_history :: "conversation_entry list"
  conversation_ttl_cache :: "(string, conversation_entry) ttl_cache"
  calls :: "call list"

definition initial_world :: "('m, 'v) world" where
  "initial_world =
     \<lparr>documents = [], original_documents = [], vectors = None, vectorizer = None,
      conversation_history = [],
      conversation_ttl_cache = \<lparr>maxsize = 1000, ttl = 1800, links = []\<rparr>,
      calls = []\<rparr>"

text \<open>
  \<open>add_document\<close>: \<open>documents.extend(text)\<close> happens before \<open>fit_transform\<close> can raise. The
  fitted matrix is returned; the function's \<open>vectors\<close> is a local variable, so the global
  of that name is not assigned here.
\<close>

definition add_document ::
  "('m, 'v, 's) libs \<Rightarrow> string list \<Rightarrow> ('m, 'v) world \<Rightarrow> (error + 'v list) \<times> ('m, 'v) world" where
  "add_document env text w =
     (let w1 = w\<lparr>documents := documents w @ text\<rparr> in
      case fit env (documents w1) of
        None \<Rightarrow> (Inl ValueError, w1)
      | Some m \<Rightarrow> (Inr (map (vec env m) (documents w1)), w1\<lparr>vectorizer := Some m\<rparr>))"

definition process_and_add_document ::
  "('m, 'v, 's) libs \<Rightarrow> string \<Rightarrow> string \<Rightarrow> ('m, 'v) world
     \<Rightarrow> (error + 'v list) \<times> ('m, 'v) world" where
  "process_and_add_document env file_path file_type w =
     (if file_type = ''pdf'' \<or> file_type = ''html'' \<or> file_type = ''txt''
      then (case process_text env (file_text env file_type file_path) CHUNK_SIZE of
              (original_chunks, processed_chunks) \<Rightarrow>
                add_document env processed_chunks
                  (w\<lparr>original_documents := original_documents w @ original_chunks\<rparr>))
      else (Inl ValueError, w))"

text \<open>\<open>file_name.split('.')[-1]\<close>: what follows the last dot, or the whole name.\<close>

definition file_type_of :: "string \<Rightarrow> string" where
  "file_type_of file_name = rev (takeWhile (\<lambda>c. c \<noteq> CHR ''.'') (rev file_name))"

definition initialize ::
  "('m, 'v, 's) libs \<Rightarrow> string \<Rightarrow> ('m, 'v) world \<Rightarrow> (error + 'v list) \<times> ('m, 'v) world" where
  "initialize env file_name w = process_and_add_document env file_name (file_type_of file_name) w"

text \<open>
  The statement \<open>vectors = initialize(file_name)\<close> of the notebooks' cells and of the README:
  the only place where the global \<open>vectors\<close> receives a matrix.
\<close>

definition assign_initialize ::
  "('m, 'v, 's) libs \<Rightarrow> string \<Rightarrow> ('m, 'v) world \<Rightarrow> (error + unit) \<times> ('m, 'v) world" where
  "assign_initialize env file_name w =
     (case initialize env file_name w of
        (Inl e, w1) \<Rightarrow> (Inl e, w1)
      | (Inr vs, w1) \<Rightarrow> (Inr (), w1\<lparr>vectors := Some vs\<rparr>))"

definition reset_database :: "('m, 'v) world \<Rightarrow> ('m, 'v) world" where
  "reset_database w = w\<lparr>documents := [], original_documents := [], vectors := None\<rparr>"

text \<open>
  What is assumed of \<open>argsort\<close> where a theorem needs it: the result is a permutation of the
  indices of the row, and the values at these indices ascend. Nothing is assumed of the
  order of indices with equal values.
\<close>

definition is_argsort :: "('s::linorder) list \<Rightarrow> nat list \<Rightarrow> bool" where
  "is_argsort row idx = (sort idx = [0..<length row] \<and> sorted (map (\<lambda>i. row ! i) idx))"

text \<open>The slice \<open>xs[start:]\<close> with Python's treatment of negative and large bounds.\<close>

definition py_slice_from :: "int \<Rightarrow> 'a list \<Rightarrow> 'a list" where
  "py_slice_from start xs =
     (let n = int (length xs);
          s = (if start < 0 then max 0 (start + n) else min start n)
      in drop (nat s) xs)"

text \<open>\<open>[xs[i] for i in idx]\<close> for non-negative indices: \<open>IndexError\<close> when one is out of range.\<close>

definition py_index_all :: "'a list \<Rightarrow> nat list \<Rightarrow> error + 'a list" where
  "py_index_all xs idx =
     (if list_all (\<lambda>i. i < length xs) idx then Inr (map (\<lambda>i. xs ! i) idx) else Inl IndexError)"

text \<open>
  The first three lines of \<open>find_best_matches\<close>: the matrix \<open>similarities\<close>, one row per
  processed chunk of the query and one column per row of \<open>vectors\<close>.
  \<open>vectorizer.transform\<close> raises \<open>NotFittedError\<close> on an unfitted vectorizer and \<open>vectors.T\<close>
  raises \<open>AttributeError\<close> on \<open>None\<close>.
\<close>

definition similarities ::
  "('m, 'v, 's) libs \<Rightarrow> string \<Rightarrow> ('m, 'v) world \<Rightarrow> error + 's list list" where
  "similarities env query w =
     (let query_processed = snd (process_text env query CHUNK_SIZE) in
      case vectorizer w of
        None \<Rightarrow> Inl NotFittedError
      | Some m \<Rightarrow>
          (let query_vector = map (vec env m) query_processed in
           case vectors w of
             None \<Rightarrow> Inl AttributeError
           | Some vs \<Rightarrow> Inr (map (\<lambda>q. map (dot env q) vs) query_vector)))"

text \<open>
  The fourth line, \<open>similarities.argsort()[0][-top_n:][::-1]\<close>. \<open>[0]\<close> raises \<open>IndexError\<close>
  when the query produced no chunk (scikit-learn may reject the empty input earlier, with
  \<open>ValueError\<close>: the model keeps one error for the two).
\<close>

definition best_match_indices ::
  "('m, 'v, 's::linorder) libs \<Rightarrow> string \<Rightarrow> int \<Rightarrow> ('m, 'v) world \<Rightarrow> error + nat list" where
  "best_match_indices env query top_n w =
     (case similarities env query w of
        Inl e \<Rightarrow> Inl e
      | Inr sims \<Rightarrow>
          (case map (argsort env) sims of
             [] \<Rightarrow> Inl IndexError
           | row # _ \<Rightarrow> Inr (rev (py_slice_from (- top_n) row))))"

definition find_best_matches ::
  "('m, 'v, 's::linorder) libs \<Rightarrow> string \<Rightarrow> int \<Rightarrow> ('m, 'v) world
     \<Rightarrow> (error + string list \<times> string list) \<times> ('m, 'v) world" where
  "find_best_matches env query top_n w =
     (let w1 = w\<lparr>calls := calls w @ [FindBestMatches query top_n]\<rparr> in
      case best_match_indices env query top_n w of
        Inl e \<Rightarrow> (Inl e, w1)
      | Inr idx \<Rightarrow>
          (case py_index_all (original_documents w) idx of
             Inl e \<Rightarrow> (Inl e, w1)
           | Inr originals \<Rightarrow>
               (case py_index_all (documents w) idx of
                  Inl e \<Rightarrow> (Inl e, w1)
                | Inr processed \<Rightarrow> (Inr (originals, processed), w1))))"

section \<open>Responder and single-turn chat\<close>

definition SYSTEM_PROMPT :: string where
  "SYSTEM_PROMPT = ''You are an AI assistant. Use the provided context to answer the user's query accurately in a short and concise response. Do not generate information that is not present in the context. If the context does not contain the answer, inform the user that the information is not available.''"

text \<open>The list \<open>messages\<close> that \<open>get_cohere_response\<close> builds: pairs of role and content.\<close>

definition chat_messages :: "string \<Rightarrow> string \<Rightarrow> message list" where
  "chat_messages query context =
     [(''system'', SYSTEM_PROMPT), (''system'', context), (''user'', query)]"

definition get_cohere_response ::
  "('m, 'v, 's) libs \<Rightarrow> string \<Rightarrow> string \<Rightarrow> ('m, 'v) world \<Rightarrow> (error + string) \<times> ('m, 'v) world" where
  "get_cohere_response env query context w =
     (let messages = chat_messages query context;
          w1 = w\<lparr>calls := calls w @ [CoChat messages]\<rparr>
      in case co_chat env messages of
           Inl e \<Rightarrow> (Inl e, w1)
         | Inr text \<Rightarrow> (Inr (py_strip text), w1))"

text \<open>\<open>process_chat\<close> (the debug print is left out); \<open>chat\<close> is its first component.\<close>

definition process_chat ::
  "('m, 'v, 's::linorder) libs \<Rightarrow> string \<Rightarrow> ('m, 'v) world
     \<Rightarrow> (error + string \<times> string) \<times> ('m, 'v) world" where
  "process_chat env user_query w =
     (case find_best_matches env user_query NUMBER_OF_MATCHES w of
        (Inl e, w1) \<Rightarrow> (Inl e, w1)
      | (Inr (original_best_matches, processed_best_matches), w1) \<Rightarrow>
          (let context = py_join [CHR 0x0A, CHR 0x0A] original_best_matches in
           case get_cohere_response env user_query context w1 of
             (Inl e, w2) \<Rightarrow> (Inl e, w2)
           | (Inr response, w2) \<Rightarrow> (Inr (response, context), w2)))"

definition chat ::
  "('m, 'v, 's::linorder) libs \<Rightarrow> string \<Rightarrow> ('m, 'v) world \<Rightarrow> (error + string) \<times> ('m, 'v) world" where
  "chat env user_query w =
     (case process_chat env user_query w of
        (Inl e, w1) \<Rightarrow> (Inl e, w1)
      | (Inr (response, context), w1) \<Rightarrow> (Inr response, w1))"

section \<open>Conversation memory\<close>

subsection \<open>The list-based history\<close>

definition add_to_conversation ::
  "string \<Rightarrow> string \<Rightarrow> string \<Rightarrow> ('m, 'v) world \<Rightarrow> ('m, 'v) world" where
  "add_to_conversation ui ctx resp w =
     (let conversation_entry =
            \<lparr>user_input = ui, search_result_context = ctx, llm_response = resp,
             timestamp = None\<rparr>
      in w\<lparr>conversation_history := conversation_history w @ [conversation_entry]\<rparr>)"

text \<open>The f-string that renders one entry, the joined history, and the composite query.\<close>

definition render_entry :: "conversation_entry \<Rightarrow> string" where
  "render_entry entry =
     ''User: '' @ user_input entry @ [CHR 0x0A] @
     ''Search Result Context: '' @ search_result_context entry @ [CHR 0x0A] @
     ''LLM Response: '' @ llm_response entry"

definition HISTORY_SEPARATOR :: string where
  "HISTORY_SEPARATOR = [CHR 0x0A, CHR 0x0A] @ ''========================='' @ [CHR 0x0A, CHR 0x0A]"

definition render_history :: "conversation_entry list \<Rightarrow> string" where
  "render_history entries = py_join HISTORY_SEPARATOR (map render_entry entries)"

definition compose_query :: "string \<Rightarrow> string \<Rightarrow> string" where
  "compose_query history user_query =
     ''This is the entire conversation up to this point. Use this as additional context when answering the question from the user.''
     @ [CHR 0x0A] @ '' CONTEXT: '' @ history @ [CHR 0x0A, CHR 0x0A]
     @ HISTORY_SEPARATOR @ '' USER QUERY: '' @ user_query"

definition conversation ::
  "('m, 'v, 's::linorder) libs \<Rightarrow> string \<Rightarrow> ('m, 'v) world \<Rightarrow> (error + string) \<times> ('m, 'v) world" where
  "conversation env user_query w =
     (let history = render_history (conversation_history w);
          query = compose_query history user_query
      in case process_chat env query w of
           (Inl e, w1) \<Rightarrow> (Inl e, w1)
         | (Inr (response, context), w1) \<Rightarrow>
             (Inr response, add_to_conversation user_query context response w1))"

subsection \<open>The cache with capacity and time to live\<close>

text \<open>\<open>TTLCache.expire(time)\<close>: unlink items from the front while they are expired.\<close>

definition expire :: "real \<Rightarrow> ('k, 'a) ttl_cache \<Rightarrow> ('k, 'a) ttl_cache" where
  "expire time c = c\<lparr>links := dropWhile (\<lambda>l. \<not> time < snd (snd l)) (links c)\<rparr>"

text \<open>\<open>TTLCache.popitem()\<close>: expire, then remove the oldest item; \<open>KeyError\<close> on an empty cache.\<close>

definition popitem :: "real \<Rightarrow> ('k, 'a) ttl_cache \<Rightarrow> error option \<times> ('k, 'a) ttl_cache" where
  "popitem time c =
     (let c1 = expire time c in
      case links c1 of
        [] \<Rightarrow> (Some KeyError, c1)
      | l # ls \<Rightarrow> (None, c1\<lparr>links := ls\<rparr>))"

lemma popitem_shrinks:
  "popitem time c = (None, c1) \<Longrightarrow> length (links c1) < length (links c)"
proof -
  assume p: "popitem time c = (None, c1)"
  have "length (dropWhile (\<lambda>l. \<not> time < snd (snd l)) (links c)) \<le> length (links c)"
    by (rule length_dropWhile_le)
  with p show ?thesis
    by (auto simp: popitem_def expire_def Let_def split: list.splits)
qed

text \<open>
  The loop \<open>while self.currsize + size > maxsize: self.popitem()\<close> of \<open>Cache.__setitem__\<close>,
  every item having size 1. It ends because each \<open>popitem\<close> that returns removes an item.
\<close>

function evict :: "real \<Rightarrow> ('k, 'a) ttl_cache \<Rightarrow> error option \<times> ('k, 'a) ttl_cache" where
  "evict time c =
     (if length (links c) + 1 > maxsize c
      then (case popitem time c of
              (Some e, c1) \<Rightarrow> (Some e, c1)
            | (None, c1) \<Rightarrow> evict time c1)
      else (None, c))"
  by pat_completeness auto
termination
  apply (relation "measure (\<lambda>(time, c). length (links c))")
   apply simp
  apply (simp add: popitem_shrinks)
  done

declare evict.simps [simp del]

text \<open>
  \<open>TTLCache.__setitem__\<close>: expire, raise \<open>ValueError\<close> when one item exceeds the capacity, make
  room for a new key, store the value, and move the key's link to the end with a fresh
  expiry time.
\<close>

definition ttl_setitem ::
  "real \<Rightarrow> 'k \<Rightarrow> 'a \<Rightarrow> ('k, 'a) ttl_cache \<Rightarrow> error option \<times> ('k, 'a) ttl_cache" where
  "ttl_setitem time key val c =
     (let c1 = expire time c in
      if 1 > maxsize c1 then (Some ValueError, c1)
      else case (if key \<notin> set (map fst (links c1)) then evict time c1 else (None, c1)) of
             (Some e, c2) \<Rightarrow> (Some e, c2)
           | (None, c2) \<Rightarrow>
               (None, c2\<lparr>links := filter (\<lambda>l. fst l \<noteq> key) (links c2)
                                     @ [(key, val, time + ttl c2)]\<rparr>))"

text \<open>\<open>list(cache.values())\<close>: the values of the items not expired at \<open>time\<close>, oldest first.\<close>

definition ttl_values :: "real \<Rightarrow> ('k, 'a) ttl_cache \<Rightarrow> 'a list" where
  "ttl_values time c = map (\<lambda>l. fst (snd l)) (filter (\<lambda>l. time < snd (snd l)) (links c))"

text \<open>
  What every cache the notebook can reach satisfies: a positive capacity, no more items
  than the capacity, and a positive time to live.
\<close>

definition cache_ok :: "('k, 'a) ttl_cache \<Rightarrow> bool" where
  "cache_ok c = (1 \<le> maxsize c \<and> length (links c) \<le> maxsize c \<and> 0 < ttl c)"

text \<open>
  \<open>add_to_conversation_cache\<close>: \<open>current_time\<close> is the value of \<open>datetime.now().isoformat()\<close>
  and \<open>time\<close> the reading of the cache's timer at the assignment.
\<close>

definition add_to_conversation_cache ::
  "string \<Rightarrow> real \<Rightarrow> string \<Rightarrow> string \<Rightarrow> string \<Rightarrow> ('m, 'v) world
     \<Rightarrow> (error + unit) \<times> ('m, 'v) world" where
  "add_to_conversation_cache current_time time ui ctx resp w =
     (let conversation_entry =
            \<lparr>user_input = ui, search_result_context = ctx, llm_response = resp,
             timestamp = Some current_time\<rparr>
      in case ttl_setitem time current_time conversation_entry (conversation_ttl_cache w) of
           (Some e, c) \<Rightarrow> (Inl e, w\<lparr>conversation_ttl_cache := c\<rparr>)
         | (None, c) \<Rightarrow> (Inr (), w\<lparr>conversation_ttl_cache := c\<rparr>))"

text \<open>
  \<open>conversation_cache\<close>: \<open>read_time\<close> is the timer's reading when the history is read,
  \<open>current_time\<close> and \<open>write_time\<close> are the wall-clock string and the timer's reading when the
  entry is stored.
\<close>

definition conversation_cache ::
  "('m, 'v, 's::linorder) libs \<Rightarrow> real \<Rightarrow> string \<Rightarrow> real \<Rightarrow> string \<Rightarrow> ('m, 'v) world
     \<Rightarrow> (error + string) \<times> ('m, 'v) world" where
  "conversation_cache env read_time current_time write_time user_query w =
     (let conversation_history_cache = ttl_values read_time (conversation_ttl_cache w);
          history = render_history conversation_history_cache;
          query = compose_query history user_query
      in case process_chat env query w of
           (Inl e, w1) \<Rightarrow> (Inl e, w1)
         | (Inr (response, context), w1) \<Rightarrow>
             (case add_to_conversation_cache current_time write_time user_query context response w1 of
                (Inl e, w2) \<Rightarrow> (Inl e, w2)
              | (Inr u, w2) \<Rightarrow> (Inr response, w2)))"

subsection \<open>Failure of the generation call\<close>

text \<open>
  The generation call of a round whose query text is \<open>query\<close> raises: \<open>find_best_matches\<close>
  returns, and \<open>co.chat\<close> fails on the messages built from its result.
\<close>

definition generation_fails ::
  "('m, 'v, 's::linorder) libs \<Rightarrow> string \<Rightarrow> ('m, 'v) world \<Rightarrow> bool" where
  "generation_fails env query w =
     (case fst (find_best_matches env query NUMBER_OF_MATCHES w) of
        Inl e \<Rightarrow> False
      | Inr (original_best_matches, processed_best_matches) \<Rightarrow>
          isl (co_chat env
                 (chat_messages query (py_join [CHR 0x0A, CHR 0x0A] original_best_matches))))"

subsection \<open>Recording a sequence of entries\<close>

text \<open>
  A run of \<open>add_to_conversation_cache\<close> calls, one per element: the wall-clock string, the
  timer's reading, and the three texts of the entry.
\<close>

type_synonym recording = "string \<times> real \<times> string \<times> string \<times> string"

definition recorded_entry :: "recording \<Rightarrow> conversation_entry" where
  "recorded_entry r =
     (case r of (current_time, time, ui, ctx, resp) \<Rightarrow>
        \<lparr>user_input = ui, search_result_context = ctx, llm_response = resp,
         timestamp = Some current_time\<rparr>)"

fun record_entries :: "recording list \<Rightarrow> ('m, 'v) world \<Rightarrow> ('m, 'v) world" where
  "record_entries [] w = w"
| "record_entries ((current_time, time, ui, ctx, resp) # rs) w =
     record_entries rs (snd (add_to_conversation_cache current_time time ui ctx resp w))"

text \<open>The timer's reading of a recording, and the link the cache stores for it.\<close>

definition recorded_at :: "recording \<Rightarrow> real" where
  "recorded_at r = fst (snd r)"

definition recorded_link :: "real \<Rightarrow> recording \<Rightarrow> string \<times> conversation_entry \<times> real" where
  "recorded_link lifetime r = (fst r, recorded_entry r, recorded_at r + lifetime)"

text \<open>The memory's \<open>snapshot()\<close> at a clock reading: what \<open>conversation_cache\<close> reads.\<close>

definition snapshot :: "real \<Rightarrow> ('m, 'v) world \<Rightarrow> conversation_entry list" where
  "snapshot time w = ttl_values time (conversation_ttl_cache w)"

text \<open>Every stored entry carries its own key as timestamp, as \<open>add_to_conversation_cache\<close> stores it.\<close>

definition keyed_by_timestamp :: "(string, conversation_entry) ttl_cache \<Rightarrow> bool" where
  "keyed_by_timestamp c = list_all (\<lambda>l. timestamp (fst (snd l)) = Some (fst l)) (links c)"

section \<open>Stand-ins for the external collaborators\<close>

text \<open>
  Concrete collaborators, used only where a theorem is instantiated or the model is
  evaluated at a concrete input. The tokenizer ends a sentence at \<open>.\<close>, \<open>!\<close> or \<open>?\<close> followed
  by whitespace or the end of the text; the stemmer returns the word; the vectorizer counts
  the whitespace-separated words of a text over the vocabulary of the fitted texts and
  multiplies the counts; \<open>argsort\<close> is an insertion sort of the indices, which leaves two
  equal values in the order of their indices; the generation service answers \<open>ok\<close>, or
  fails; two files exist.
\<close>

fun sentence_scan :: "string \<Rightarrow> string \<Rightarrow> string list" where
  "sentence_scan cur [] = (if py_strip cur = [] then [] else [py_strip cur])"
| "sentence_scan cur (c # cs) =
     (if cur = [] \<and> is_space c then sentence_scan [] cs
      else if (c = CHR ''.'' \<or> c = CHR ''!'' \<or> c = CHR ''?'') \<and> (cs = [] \<or> is_space (hd cs))
      then (cur @ [c]) # sentence_scan [] cs
      else sentence_scan (cur @ [c]) cs)"

definition sample_fit :: "string list \<Rightarrow> string list option" where
  "sample_fit docs =
     (let vocabulary = remdups (concat (map py_split docs)) in
      if vocabulary = [] then None else Some vocabulary)"

definition sample_vec :: "string list \<Rightarrow> string \<Rightarrow> nat list" where
  "sample_vec vocabulary d = map (count_list (py_split d)) vocabulary"

definition sample_dot :: "nat list \<Rightarrow> nat list \<Rightarrow> nat" where
  "sample_dot q d = sum_list (map2 (*) q d)"

definition sample_argsort :: "nat list \<Rightarrow> nat list" where
  "sample_argsort row = sort_key (\<lambda>i. row ! i) [0..<length row]"

definition sample_file_text :: "string \<Rightarrow> string \<Rightarrow> string" where
  "sample_file_text file_type file_path =
     (if file_path = ''cat.txt'' then ''The cat sat.''
      else if file_path = ''dog.txt'' then ''The dog ran.''
      else [])"

definition sample_reply :: "message list \<Rightarrow> error + string" where
  "sample_reply messages = Inr ''ok''"

definition sample_outage :: "message list \<Rightarrow> error + string" where
  "sample_outage messages = Inl UpstreamError"

definition sample_env :: "(string list, nat list, nat) libs" where
  "sample_env =
     \<lparr>sent_tokenize = sentence_scan [], ps_stem = (\<lambda>word. word), fit = sample_fit,
      vec = sample_vec, dot = sample_dot, argsort = sample_argsort, co_chat = sample_reply,
      file_text = sample_file_text\<rparr>"

definition outage_env :: "(string list, nat list, nat) libs" where
  "outage_env = sample_env\<lparr>co_chat := sample_outage\<rparr>"

text \<open>The state after the cells \<open>vectors = initialize('cat.txt')\<close> and \<open>vectors = initialize('dog.txt')\<close>.\<close>

definition two_file_world :: "(string list, nat list) world" where
  "two_file_world =
     snd (assign_initialize sample_env ''dog.txt''
            (snd (assign_initialize sample_env ''cat.txt'' initial_world)))"

text \<open>A fresh memory of capacity 2, and two runs of three recordings.\<close>

definition small_memory_world :: "(string list, nat list) world" where
  "small_memory_world =
     initial_world\<lparr>conversation_ttl_cache := \<lparr>maxsize = 2, ttl = 1800, links = []\<rparr>\<rparr>"

definition three_recordings :: "recording list" where
  "three_recordings =
     [(''09:00:00'', 0, ''first'', ''ctx'', ''one''),
      (''09:00:01'', 1, ''second'', ''ctx'', ''two''),
      (''09:00:02'', 2, ''third'', ''ctx'', ''three'')]"

definition same_instant_recordings :: "recording list" where
  "same_instant_recordings =
     [(''09:00:00'', 0, ''first'', ''ctx'', ''one''),
      (''09:00:00'', 1, ''second'', ''ctx'', ''two''),
      (''09:00:00'', 2, ''third'', ''ctx'', ''three'')]"

text \<open>
  The state after one round of \<open>conversation\<close> on the two indexed files, and the state with
  two entries recorded in the cache.
\<close>

definition one_round_world :: "(string list, nat list) world" where
  "one_round_world = snd (conversation sample_env ''Who sat?'' two_file_world)"

definition two_entry_world :: "(string list, nat list) world" where
  "two_entry_world = record_entries (take 2 three_recordings) two_file_world"

section \<open>Properties of the chunker\<close>

lemma chunk_loop_prefix:
  "\<exists>os ps c. chunk_loop env n ss (oc, pc, ch) = (oc @ os, pc @ ps, c)"
proof (induction ss arbitrary: oc pc ch)
  case Nil
  show ?case by simp
next
  case (Cons s ss)
  show ?case
  proof (cases "int (length ch) + int (length s) > n")
    case True
    from Cons.IH [of "oc @ [ch]" "pc @ [stem_chunk env ch]" s]
    obtain os ps c where
      "chunk_loop env n ss (oc @ [ch], pc @ [stem_chunk env ch], s) =
         ((oc @ [ch]) @ os, (pc @ [stem_chunk env ch]) @ ps, c)"
      by blast
    with True show ?thesis by simp
  next
    case False
    from Cons.IH [of oc pc "ch @ '' '' @ s"] False show ?thesis by simp
  qed
qed

lemma stem_chunk_empty: "stem_chunk env [] = []"
  by (simp add: stem_chunk_def py_split_def)

lemma chunk_loop_lengths:
  "length oc = length pc \<Longrightarrow>
   chunk_loop env n ss (oc, pc, ch) = (oc', pc', ch') \<Longrightarrow> length oc' = length pc'"
proof (induction ss arbitrary: oc pc ch)
  case Nil
  then show ?case by simp
next
  case (Cons s ss)
  show ?case
  proof (cases "int (length ch) + int (length s) > n")
    case True
    with Cons.prems
    have "chunk_loop env n ss (oc @ [ch], pc @ [stem_chunk env ch], s) = (oc', pc', ch')"
      by simp
    moreover have "length (oc @ [ch]) = length (pc @ [stem_chunk env ch])"
      using Cons.prems by simp
    ultimately show ?thesis by (rule Cons.IH [rotated])
  next
    case False
    with Cons.prems have "chunk_loop env n ss (oc, pc, ch @ '' '' @ s) = (oc', pc', ch')"
      by simp
    with Cons.prems(1) show ?thesis by (rule Cons.IH)
  qed
qed

text \<open>The two sequences \<open>process_text\<close> returns are aligned.\<close>

lemma process_text_lengths:
  "length (fst (process_text env text n)) = length (snd (process_text env text n))"
proof -
  obtain oc pc ch where l: "chunk_loop env n (sent_tokenize env text) ([], [], []) = (oc, pc, ch)"
    by (metis prod_cases3)
  then have "length oc = length pc"
    using chunk_loop_lengths [of "[]" "[]"] by simp
  with l show ?thesis by (simp add: process_text_def)
qed

lemma length_py_join_Cons:
  "ss \<noteq> [] \<Longrightarrow> length (py_join sep (s # ss)) = length s + length sep + length (py_join sep ss)"
  by (cases ss) simp_all

text \<open>
  While the buffer and the next sentences, joined by single spaces, fit in the chunk size,
  the loop closes no chunk: it appends a space and the sentence, each time.
\<close>

lemma chunk_loop_fits:
  "(ss \<noteq> [] \<Longrightarrow> int (length ch) + int (length (py_join '' '' ss)) \<le> n) \<Longrightarrow>
   chunk_loop env n ss (oc, pc, ch) = (oc, pc, ch @ concat (map (\<lambda>s. '' '' @ s) ss))"
proof (induction ss arbitrary: ch)
  case Nil
  show ?case by simp
next
  case (Cons s ss)
  show ?case
  proof (cases "ss = []")
    case True
    with Cons.prems show ?thesis by simp
  next
    case False
    from Cons.prems False
    have fit: "int (length ch) + int (length s) + 1 + int (length (py_join '' '' ss)) \<le> n"
      by (simp add: length_py_join_Cons)
    then have "\<not> int (length ch) + int (length s) > n" by linarith
    moreover have "chunk_loop env n ss (oc, pc, ch @ '' '' @ s) =
        (oc, pc, (ch @ '' '' @ s) @ concat (map (\<lambda>s. '' '' @ s) ss))"
      using fit by (intro Cons.IH) simp
    ultimately show ?thesis by simp
  qed
qed

lemma concat_spaces:
  "ss \<noteq> [] \<Longrightarrow> concat (map ((#) CHR '' '') ss) = CHR '' '' # py_join '' '' ss"
proof (induction ss)
  case Nil
  then show ?case by simp
next
  case (Cons s ss)
  then show ?case by (cases ss) simp_all
qed

text \<open>
  Claim C5, as the code has it. Let the sentences of a document \<open>D\<close>, joined by single
  spaces, be no longer than \<open>D\<close> (the sentences of a tokenizer are spans of the text
  separated by whitespace), and let the chunk size \<open>S\<close> be at least the length of \<open>D\<close>.
  Then \<open>process_text\<close> returns no chunk when \<open>D\<close> has no sentence, and otherwise exactly one
  original chunk: one space followed by the sentences joined by single spaces. The chunk
  starts with a space and the whitespace between sentences is replaced, so it is not the
  trimmed document.
\<close>

theorem process_text_whole_document:
  assumes "length (py_join '' '' (sent_tokenize env D)) \<le> length D"
      and "int (length D) \<le> S"
  shows "process_text env D S =
           (if sent_tokenize env D = [] then ([], [])
            else (['' '' @ py_join '' '' (sent_tokenize env D)],
                  [stem_chunk env ('' '' @ py_join '' '' (sent_tokenize env D))]))"
proof -
  let ?ss = "sent_tokenize env D"
  from assms have "int (length []) + int (length (py_join '' '' ?ss)) \<le> S" by simp
  then have "chunk_loop env S ?ss ([], [], []) = ([], [], [] @ concat (map (\<lambda>s. '' '' @ s) ?ss))"
    by (intro chunk_loop_fits)
  then show ?thesis
    by (cases "?ss = []") (simp_all add: process_text_def concat_spaces)
qed

theorem process_text_whole_document_witness:
  "length (py_join '' '' (sent_tokenize sample_env ''The cat sat. The dog ran.''))
     \<le> length ''The cat sat. The dog ran.'' \<and>
   int (length ''The cat sat. The dog ran.'') \<le> CHUNK_SIZE \<and>
   process_text sample_env ''The cat sat. The dog ran.'' CHUNK_SIZE =
     (['' The cat sat. The dog ran.''], [''The cat sat. The dog ran.''])"
proof -
  have h1: "length (py_join '' '' (sent_tokenize sample_env ''The cat sat. The dog ran.''))
              \<le> length ''The cat sat. The dog ran.''"
    by (simp add: sample_env_def is_space_def py_strip_def)
  have h2: "int (length ''The cat sat. The dog ran.'') \<le> CHUNK_SIZE"
    by (simp add: CHUNK_SIZE_def)
  show ?thesis
    using h1 h2 process_text_whole_document [OF h1 h2]
    by (simp add: sample_env_def is_space_def py_strip_def stem_chunk_def py_split_def)
qed

text \<open>
  Claim C5 as stated fails: with the default chunk size, far above the length of the
  document \<open>The cat sat.\<close>, the one chunk returned is the document preceded by a space, not the
  trimmed document.
\<close>

theorem process_text_whole_document_counterexample:
  "int (length ''The cat sat.'') \<le> CHUNK_SIZE \<and>
   fst (process_text sample_env ''The cat sat.'' CHUNK_SIZE) = ['' The cat sat.''] \<and>
   ['' The cat sat.''] \<noteq> [py_strip ''The cat sat.'']"
  by (simp add: process_text_def sample_env_def is_space_def py_strip_def CHUNK_SIZE_def)

text \<open>
  Claim C10. When the first sentence of a text is longer than the chunk size, the first
  original chunk \<open>process_text\<close> returns is the empty string, and so is the first stemmed
  chunk: the empty buffer is closed as a chunk before the sentence is taken.
\<close>

theorem process_text_oversized_first_sentence:
  assumes "sent_tokenize env text = s # rest" and "chunk_size < int (length s)"
  shows "\<exists>os ps. process_text env text chunk_size = ([] # os, [] # ps)"
proof -
  obtain os ps c where
    "chunk_loop env chunk_size rest ([[]], [stem_chunk env []], s) =
       ([[]] @ os, [stem_chunk env []] @ ps, c)"
    using chunk_loop_prefix [of env chunk_size rest "[[]]" "[stem_chunk env []]" s] by blast
  with assms show ?thesis
    by (simp add: process_text_def stem_chunk_empty)
qed

theorem process_text_oversized_first_sentence_witness:
  "sent_tokenize sample_env ''A very long sentence. Short.'' = [''A very long sentence.'', ''Short.''] \<and>
   (10::int) < int (length ''A very long sentence.'') \<and>
   (\<exists>os ps. process_text sample_env ''A very long sentence. Short.'' 10 = ([] # os, [] # ps))"
proof -
  have h1: "sent_tokenize sample_env ''A very long sentence. Short.''
              = ''A very long sentence.'' # [''Short.'']"
    by (simp add: sample_env_def is_space_def py_strip_def)
  have h2: "(10::int) < int (length ''A very long sentence.'')" by simp
  from process_text_oversized_first_sentence [OF h1 h2] h1 h2 show ?thesis by simp
qed

section \<open>Properties of the vector index and the retriever\<close>

subsection \<open>What follows from the assumption on \<open>argsort\<close>\<close>

lemma is_argsort_set: "is_argsort row idx \<Longrightarrow> set idx = {..<length row}"
proof -
  assume "is_argsort row idx"
  then have "set (sort idx) = set [0..<length row]" by (simp add: is_argsort_def)
  then show ?thesis by auto
qed




text \<open>The stand-in satisfies the assumption.\<close>

lemma sample_argsort_ok: "is_argsort row (sample_argsort row)"
proof -
  have "sort (sort_key (\<lambda>i. row ! i) [0..<length row]) = [0..<length row]"
    by (rule sorted_distinct_set_unique) simp_all
  moreover have "sorted (map (\<lambda>i. row ! i) (sort_key (\<lambda>i. row ! i) [0..<length row]))"
    by (rule sorted_sort_key)
  ultimately show ?thesis by (simp add: is_argsort_def sample_argsort_def)
qed



lemma py_index_all_in_range:
  "\<forall>i\<in>set idx. i < length xs \<Longrightarrow> py_index_all xs idx = Inr (map ((!) xs) idx)"
  by (simp add: py_index_all_def list_all_iff)






lemma sample_env_fields:
  "sent_tokenize sample_env = sentence_scan []"
  "ps_stem sample_env = (\<lambda>word. word)"
  "fit sample_env = sample_fit"
  "vec sample_env = sample_vec"
  "dot sample_env = sample_dot"
  "argsort sample_env = sample_argsort"
  "co_chat sample_env = sample_reply"
  "file_text sample_env = sample_file_text"
  by (simp_all add: sample_env_def)




subsection \<open>Index bounds\<close>

lemma best_match_indices_bound:
  assumes "\<And>row. is_argsort row (argsort env row)"
      and "best_match_indices env q n w = Inr idx" and "vectors w = Some vs"
  shows "\<forall>i\<in>set idx. i < length vs"
proof -
  from assms(2) obtain sims where s: "similarities env q w = Inr sims"
    by (auto simp: best_match_indices_def split: sum.splits)
  with assms(2) obtain row rest where r: "map (argsort env) sims = row # rest"
    and idx: "idx = rev (py_slice_from (- n) row)"
    by (auto simp: best_match_indices_def split: list.splits)
  from s assms(3) obtain m where
    "sims = map (\<lambda>qv. map (dot env qv) vs) (map (vec env m) (snd (process_text env q CHUNK_SIZE)))"
    by (auto simp: similarities_def Let_def split: option.splits)
  with r obtain qv where "row = argsort env (map (dot env qv) vs)"
    by (auto simp: map_eq_Cons_conv)
  then have "set row = {..<length vs}"
    using is_argsort_set [OF assms(1), of "map (dot env qv) vs"] by simp
  moreover have "set idx \<subseteq> set row"
    by (auto simp: idx py_slice_from_def Let_def dest: in_set_dropD)
  ultimately show ?thesis by auto
qed

lemma add_document_after_reset:
  assumes "add_document env chunks (reset_database w) = (Inr vs, w1)"
  shows "documents w1 = chunks \<and> length vs = length chunks
           \<and> original_documents w1 = [] \<and> vectors w1 = None"
  using assms
  by (auto simp: add_document_def reset_database_def Let_def split: option.splits)

lemma assign_initialize_after_reset:
  assumes "assign_initialize env file_name (reset_database w) = (Inr (), w2)"
  shows "original_documents w2
           = fst (process_text env (file_text env (file_type_of file_name) file_name) CHUNK_SIZE)
       \<and> documents w2
           = snd (process_text env (file_text env (file_type_of file_name) file_name) CHUNK_SIZE)
       \<and> (\<exists>vs. vectors w2 = Some vs \<and> length vs = length (documents w2))"
  using assms
  by (auto simp: assign_initialize_def initialize_def process_and_add_document_def
      add_document_def reset_database_def Let_def split: option.splits prod.splits sum.splits if_splits)

lemma find_best_matches_of_indices:
  assumes "best_match_indices env q n w = Inr idx"
  shows "fst (find_best_matches env q n w)
           = (case py_index_all (original_documents w) idx of
                Inl e \<Rightarrow> Inl e
              | Inr originals \<Rightarrow>
                  (case py_index_all (documents w) idx of
                     Inl e \<Rightarrow> Inl e
                   | Inr processed \<Rightarrow> Inr (originals, processed)))"
  using assms by (simp add: find_best_matches_def Let_def split: sum.splits)

text \<open>
  Claim C8, as the code has it, \<open>argsort\<close> giving a permutation of the indices of each row.
  After \<open>reset_database()\<close> and \<open>vectors = initialize(file_name)\<close>, which extends
  \<open>original_documents\<close> and then calls \<open>add_document\<close>, the two lists hold the chunks of that
  file alone, every index a query selects is in bounds of both, and \<open>find_best_matches\<close>
  returns the texts at these indices. After \<open>reset_database()\<close> and \<open>add_document(chunks)\<close>
  alone, the result being assigned to \<open>vectors\<close>, the corpus is \<open>chunks\<close> alone and every
  index a query selects is below its length; but \<open>original_documents\<close> is empty, and
  \<open>find_best_matches\<close> raises \<open>IndexError\<close> as soon as an index is selected.
\<close>

theorem query_after_reset_in_bounds:
  fixes env :: "('m, 'v, 's::linorder) libs"
  assumes "\<And>row. is_argsort row (argsort env row)"
  shows "(assign_initialize env file_name (reset_database w) = (Inr (), wb)
          \<and> best_match_indices env q n wb = Inr idxb
          \<longrightarrow> original_documents wb
                = fst (process_text env (file_text env (file_type_of file_name) file_name) CHUNK_SIZE)
            \<and> documents wb
                = snd (process_text env (file_text env (file_type_of file_name) file_name) CHUNK_SIZE)
            \<and> (\<forall>i\<in>set idxb. i < length (documents wb) \<and> i < length (original_documents wb))
            \<and> fst (find_best_matches env q n wb)
                = Inr (map ((!) (original_documents wb)) idxb, map ((!) (documents wb)) idxb))
       \<and> (add_document env chunks (reset_database w) = (Inr vs, wa)
          \<and> best_match_indices env q n (wa\<lparr>vectors := Some vs\<rparr>) = Inr idx
          \<longrightarrow> documents wa = chunks \<and> original_documents wa = []
            \<and> (\<forall>i\<in>set idx. i < length chunks)
            \<and> (idx \<noteq> []
                 \<longrightarrow> fst (find_best_matches env q n (wa\<lparr>vectors := Some vs\<rparr>)) = Inl IndexError))"
proof (intro conjI impI)
  assume b: "assign_initialize env file_name (reset_database w) = (Inr (), wb)
          \<and> best_match_indices env q n wb = Inr idxb"
  then show o: "original_documents wb
       = fst (process_text env (file_text env (file_type_of file_name) file_name) CHUNK_SIZE)"
    using assign_initialize_after_reset by blast
  from b show d: "documents wb
       = snd (process_text env (file_text env (file_type_of file_name) file_name) CHUNK_SIZE)"
    using assign_initialize_after_reset by blast
  from b obtain vsb where v: "vectors wb = Some vsb" "length vsb = length (documents wb)"
    using assign_initialize_after_reset [of env file_name w wb] by blast
  with b have "\<forall>i\<in>set idxb. i < length (documents wb)"
    using best_match_indices_bound [OF assms, of q n wb idxb vsb] by simp
  moreover have "length (original_documents wb) = length (documents wb)"
    using o d by (simp add: process_text_lengths)
  ultimately show bounds:
    "\<forall>i\<in>set idxb. i < length (documents wb) \<and> i < length (original_documents wb)"
    by simp
  then have "py_index_all (original_documents wb) idxb = Inr (map ((!) (original_documents wb)) idxb)"
    and "py_index_all (documents wb) idxb = Inr (map ((!) (documents wb)) idxb)"
    by (simp_all add: py_index_all_in_range)
  with b show "fst (find_best_matches env q n wb)
       = Inr (map ((!) (original_documents wb)) idxb, map ((!) (documents wb)) idxb)"
    by (simp add: find_best_matches_of_indices)
next
  assume a: "add_document env chunks (reset_database w) = (Inr vs, wa)
          \<and> best_match_indices env q n (wa\<lparr>vectors := Some vs\<rparr>) = Inr idx"
  then show "documents wa = chunks" using add_document_after_reset by blast
  from a show e: "original_documents wa = []" using add_document_after_reset by blast
  from a have "\<forall>i\<in>set idx. i < length vs"
    using best_match_indices_bound [OF assms, of q n "wa\<lparr>vectors := Some vs\<rparr>" idx vs] by simp
  moreover from a have "length vs = length chunks" using add_document_after_reset by blast
  ultimately show "\<forall>i\<in>set idx. i < length chunks" by simp
  assume "idx \<noteq> []"
  then have "py_index_all (original_documents (wa\<lparr>vectors := Some vs\<rparr>)) idx = Inl IndexError"
    using e by (cases idx) (simp_all add: py_index_all_def)
  with a show "fst (find_best_matches env q n (wa\<lparr>vectors := Some vs\<rparr>)) = Inl IndexError"
    by (simp add: find_best_matches_of_indices)
qed

theorem query_after_reset_in_bounds_witness:
  "(\<forall>row. is_argsort row (argsort sample_env row)) \<and>
   assign_initialize sample_env ''dog.txt'' (reset_database two_file_world)
     = (Inr (), snd (assign_initialize sample_env ''dog.txt'' (reset_database two_file_world))) \<and>
   best_match_indices sample_env ''cat'' 3
     (snd (assign_initialize sample_env ''dog.txt'' (reset_database two_file_world))) = Inr [0] \<and>
   add_document sample_env [''The cat sat.''] (reset_database two_file_world)
     = (Inr [[1, 1, 1]], snd (add_document sample_env [''The cat sat.''] (reset_database two_file_world))) \<and>
   best_match_indices sample_env ''cat'' 3
     ((snd (add_document sample_env [''The cat sat.''] (reset_database two_file_world)))
        \<lparr>vectors := Some [[1, 1, 1]]\<rparr>) = Inr [0] \<and>
   original_documents (snd (assign_initialize sample_env ''dog.txt'' (reset_database two_file_world)))
     = ['' The dog ran.''] \<and>
   documents (snd (assign_initialize sample_env ''dog.txt'' (reset_database two_file_world)))
     = [''The dog ran.''] \<and>
   fst (find_best_matches sample_env ''cat'' 3
          (snd (assign_initialize sample_env ''dog.txt'' (reset_database two_file_world))))
     = Inr (['' The dog ran.''], [''The dog ran.'']) \<and>
   documents (snd (add_document sample_env [''The cat sat.''] (reset_database two_file_world)))
     = [''The cat sat.''] \<and>
   fst (find_best_matches sample_env ''cat'' 3
          ((snd (add_document sample_env [''The cat sat.''] (reset_database two_file_world)))
             \<lparr>vectors := Some [[1, 1, 1]]\<rparr>))
     = Inl IndexError"
proof -
  let ?w1 = "snd (add_document sample_env [''The cat sat.''] (reset_database two_file_world))"
  let ?w2 = "snd (assign_initialize sample_env ''dog.txt'' (reset_database two_file_world))"
  have h0: "is_argsort row (argsort sample_env row)" for row
    by (simp add: sample_env_fields sample_argsort_ok)
  have h1: "add_document sample_env [''The cat sat.''] (reset_database two_file_world)
              = (Inr [[1, 1, 1]], ?w1)"
    by code_simp
  have h2: "best_match_indices sample_env ''cat'' 3 (?w1\<lparr>vectors := Some [[1, 1, 1]]\<rparr>) = Inr [0]"
    by code_simp
  have h3: "assign_initialize sample_env ''dog.txt'' (reset_database two_file_world) = (Inr (), ?w2)"
    by code_simp
  have h4: "best_match_indices sample_env ''cat'' 3 ?w2 = Inr [0]"
    by code_simp
  have p: "process_text sample_env (file_text sample_env (file_type_of ''dog.txt'') ''dog.txt'') CHUNK_SIZE
             = (['' The dog ran.''], [''The dog ran.''])"
    by code_simp
  from query_after_reset_in_bounds [OF h0, where chunks = "[''The cat sat.'']"
      and w = two_file_world and vs = "[[1, 1, 1]]" and wa = ?w1 and q = "''cat''" and n = 3
      and idx = "[0]" and file_name = "''dog.txt''" and wb = ?w2 and idxb = "[0]"] h1 h2 h3 h4
  have "original_documents ?w2 = ['' The dog ran.''] \<and> documents ?w2 = [''The dog ran.'']
          \<and> fst (find_best_matches sample_env ''cat'' 3 ?w2)
              = Inr (['' The dog ran.''], [''The dog ran.''])
          \<and> documents ?w1 = [''The cat sat.'']
          \<and> fst (find_best_matches sample_env ''cat'' 3 (?w1\<lparr>vectors := Some [[1, 1, 1]]\<rparr>))
              = Inl IndexError"
    by (simp add: p)
  with h0 h1 h2 h3 h4 show ?thesis by blast
qed

text \<open>
  Claim C8 as stated fails on its own sequence: after \<open>reset_database()\<close> and
  \<open>add_document\<close> of one chunk, the result being assigned to \<open>vectors\<close>, the query selects
  index 0, \<open>original_documents\<close> is empty, and \<open>find_best_matches\<close> raises \<open>IndexError\<close>.
\<close>

theorem query_after_reset_counterexample:
  "fst (add_document sample_env [''The cat sat.''] (reset_database two_file_world))
     = Inr [[1, 1, 1]] \<and>
   best_match_indices sample_env ''cat'' 3
     ((snd (add_document sample_env [''The cat sat.''] (reset_database two_file_world)))
        \<lparr>vectors := Some [[1, 1, 1]]\<rparr>) = Inr [0] \<and>
   original_documents
     ((snd (add_document sample_env [''The cat sat.''] (reset_database two_file_world)))
        \<lparr>vectors := Some [[1, 1, 1]]\<rparr>) = [] \<and>
   fst (find_best_matches sample_env ''cat'' 3
          ((snd (add_document sample_env [''The cat sat.''] (reset_database two_file_world)))
             \<lparr>vectors := Some [[1, 1, 1]]\<rparr>))
     = Inl IndexError"
  by code_simp

subsection \<open>Queries before ingestion\<close>

text \<open>
  Claim C6. In the initial state \<open>find_best_matches\<close> raises \<open>NotFittedError\<close>, whatever the
  query and \<open>top_n\<close>; after \<open>reset_database()\<close> it raises that error or, when the vectorizer
  was fitted before, \<open>AttributeError\<close> for \<open>vectors\<close> being \<open>None\<close>. \<open>chat\<close> passes the error
  on to its caller.
\<close>

theorem find_best_matches_before_any_document:
  fixes env :: "('m, 'v, 's::linorder) libs"
  shows "fst (find_best_matches env query top_n initial_world) = Inl NotFittedError
       \<and> fst (find_best_matches env query top_n (reset_database w))
           = Inl (if vectorizer w = None then NotFittedError else AttributeError)
       \<and> fst (chat env query initial_world) = Inl NotFittedError"
  by (auto simp: find_best_matches_def best_match_indices_def similarities_def
      initial_world_def reset_database_def chat_def process_chat_def Let_def)

section \<open>Properties of the conversation memory\<close>

subsection \<open>One item assignment\<close>

lemma evict_no_room_needed:
  "length (links c) < maxsize c \<Longrightarrow> evict time c = (None, c)"
  by (subst evict.simps) simp

lemma popitem_fresh_head:
  assumes "links c = l # ls" and "time < snd (snd l)"
  shows "popitem time c = (None, c\<lparr>links := ls\<rparr>)"
  using assms by (simp add: popitem_def expire_def Let_def)

lemma evict_full:
  assumes "links c = l # ls" and "time < snd (snd l)" and "length (links c) = maxsize c"
  shows "evict time c = (None, c\<lparr>links := ls\<rparr>)"
proof -
  have "evict time c = evict time (c\<lparr>links := ls\<rparr>)"
    using assms by (subst evict.simps) (simp add: popitem_fresh_head)
  also have "\<dots> = (None, c\<lparr>links := ls\<rparr>)"
    using assms by (intro evict_no_room_needed) simp
  finally show ?thesis .
qed

lemma live_head:
  "dropWhile (\<lambda>l. \<not> time < snd (snd l)) xs = l # ls \<Longrightarrow> time < snd (snd l)"
  by (induction xs) (auto split: if_splits)

lemma ttl_setitem_links:
  assumes "1 \<le> maxsize c" and "length (links c) \<le> maxsize c"
  shows "ttl_setitem time key val c =
           (None, c\<lparr>links :=
              (let live = dropWhile (\<lambda>l. \<not> time < snd (snd l)) (links c)
               in filter (\<lambda>l. fst l \<noteq> key)
                    (if key \<notin> set (map fst live) \<and> length live = maxsize c then tl live else live)
                  @ [(key, val, time + ttl c)])\<rparr>)"
proof -
  let ?live = "dropWhile (\<lambda>l. \<not> time < snd (snd l)) (links c)"
  let ?c1 = "expire time c"
  have c1: "links ?c1 = ?live" "maxsize ?c1 = maxsize c" "ttl ?c1 = ttl c"
    by (simp_all add: expire_def)
  have le: "length ?live \<le> maxsize c"
    using assms(2) length_dropWhile_le [of _ "links c"] by (meson le_trans)
  show ?thesis
  proof (cases "key \<notin> set (map fst ?live) \<and> length ?live = maxsize c")
    case True
    with assms(1) obtain l ls where l: "?live = l # ls" by (cases ?live) auto
    then have "time < snd (snd l)" by (rule live_head)
    with l True c1 have "evict time ?c1 = (None, ?c1\<lparr>links := ls\<rparr>)"
      by (intro evict_full) simp_all
    with True l c1 assms(1) show ?thesis
      by (simp add: ttl_setitem_def Let_def expire_def)
  next
    case False
    show ?thesis
    proof (cases "key \<notin> set (map fst ?live)")
      case True
      with False le have "length (links ?c1) < maxsize ?c1" using c1 by simp
      then have "evict time ?c1 = (None, ?c1)" by (rule evict_no_room_needed)
      with True False c1 assms(1) show ?thesis
        by (simp add: ttl_setitem_def Let_def expire_def)
    next
      case f: False
      with c1 assms(1) show ?thesis
        by (simp add: ttl_setitem_def Let_def expire_def)
    qed
  qed
qed

lemma ttl_setitem_ok:
  assumes "cache_ok c"
  shows "fst (ttl_setitem time key val c) = None \<and> cache_ok (snd (ttl_setitem time key val c))"
proof -
  let ?live = "dropWhile (\<lambda>l. \<not> time < snd (snd l)) (links c)"
  let ?kept = "if key \<notin> set (map fst ?live) \<and> length ?live = maxsize c then tl ?live else ?live"
  from assms have a: "1 \<le> maxsize c" "length (links c) \<le> maxsize c" "0 < ttl c"
    by (simp_all add: cache_ok_def)
  have le: "length ?live \<le> maxsize c"
    using a(2) length_dropWhile_le [of _ "links c"] by (meson le_trans)
  have "length (filter (\<lambda>l. fst l \<noteq> key) ?kept) < maxsize c"
  proof (cases "key \<in> set (map fst ?live)")
    case True
    then obtain l where "l \<in> set ?live" "fst l = key" by auto
    then have "length (filter (\<lambda>l. fst l \<noteq> key) ?live) < length ?live"
      by (intro length_filter_less) auto
    with True le show ?thesis by simp
  next
    case False
    show ?thesis
    proof (cases "length ?live = maxsize c")
      case True
      with False have k: "?kept = tl ?live" by simp
      from True a(1) have "length (tl ?live) < maxsize c" by simp
      moreover have "length (filter (\<lambda>l. fst l \<noteq> key) (tl ?live)) \<le> length (tl ?live)"
        by (rule length_filter_le)
      ultimately have "length (filter (\<lambda>l. fst l \<noteq> key) (tl ?live)) < maxsize c"
        by linarith
      with k show ?thesis by simp
    next
      case f: False
      then have k: "?kept = ?live" by simp
      from f le have "length ?live < maxsize c" by simp
      moreover have "length (filter (\<lambda>l. fst l \<noteq> key) ?live) \<le> length ?live"
        by (rule length_filter_le)
      ultimately have "length (filter (\<lambda>l. fst l \<noteq> key) ?live) < maxsize c"
        by linarith
      with k show ?thesis by simp
    qed
  qed
  then show ?thesis
    using a by (simp add: ttl_setitem_links Let_def cache_ok_def)
qed

subsection \<open>Sequences of recordings\<close>

lemma add_to_conversation_cache_world:
  assumes "cache_ok (conversation_ttl_cache w)"
  shows "add_to_conversation_cache ct time ui ctx resp w =
           (Inr (), w\<lparr>conversation_ttl_cache :=
              snd (ttl_setitem time ct (recorded_entry (ct, time, ui, ctx, resp))
                     (conversation_ttl_cache w))\<rparr>)"
proof -
  obtain r c where rc: "ttl_setitem time ct (recorded_entry (ct, time, ui, ctx, resp))
                     (conversation_ttl_cache w) = (r, c)" by (cases "ttl_setitem time ct (recorded_entry (ct, time, ui, ctx, resp))
                     (conversation_ttl_cache w)")
  with ttl_setitem_ok [OF assms, of time ct "recorded_entry (ct, time, ui, ctx, resp)"]
  have "r = None" by simp
  with rc show ?thesis
    by (simp add: add_to_conversation_cache_def recorded_entry_def)
qed

lemma all_live:
  "\<forall>l\<in>set xs. time < snd (snd l) \<Longrightarrow> dropWhile (\<lambda>l. \<not> time < snd (snd l)) xs = xs"
  by (cases xs) simp_all

lemma ttl_setitem_fresh_key:
  assumes "cache_ok c" and "key \<notin> set (map fst (links c))"
      and "\<forall>l\<in>set (links c). time < snd (snd l)"
  shows "snd (ttl_setitem time key val c)
           = c\<lparr>links := drop (length (links c) + 1 - maxsize c)
                            (links c @ [(key, val, time + ttl c)])\<rparr>"
proof -
  from assms(1) have a: "1 \<le> maxsize c" "length (links c) \<le> maxsize c"
    by (simp_all add: cache_ok_def)
  have live: "dropWhile (\<lambda>l. \<not> time < snd (snd l)) (links c) = links c"
    using assms(3) by (rule all_live)
  have nokey: "filter (\<lambda>l. fst l \<noteq> key) xs = xs" if "set xs \<subseteq> set (links c)" for xs
    using that assms(2) by (intro filter_True) auto
  have step: "snd (ttl_setitem time key val c)
                = c\<lparr>links := filter (\<lambda>l. fst l \<noteq> key)
                     (if length (links c) = maxsize c then tl (links c) else links c)
                     @ [(key, val, time + ttl c)]\<rparr>"
    using assms(2) by (simp add: ttl_setitem_links [OF a] live Let_def)
  have "set (if length (links c) = maxsize c then tl (links c) else links c) \<subseteq> set (links c)"
    by (cases "links c") auto
  then have kept: "filter (\<lambda>l. fst l \<noteq> key)
                     (if length (links c) = maxsize c then tl (links c) else links c)
                   = (if length (links c) = maxsize c then tl (links c) else links c)"
    by (rule nokey)
  have "(if length (links c) = maxsize c then tl (links c) else links c) @ [(key, val, time + ttl c)]
          = drop (length (links c) + 1 - maxsize c) (links c @ [(key, val, time + ttl c)])"
  proof (cases "length (links c) = maxsize c")
    case True
    with a(1) obtain l ls where "links c = l # ls" by (cases "links c") auto
    with True show ?thesis by simp
  next
    case False
    with a(2) have "length (links c) + 1 - maxsize c = 0" by simp
    with False show ?thesis by simp
  qed
  with step kept show ?thesis by simp
qed


lemma distinct_drop_append:
  "distinct (xs @ ys) \<Longrightarrow> distinct (drop n xs @ ys)"
  by (auto dest: in_set_dropD)

lemma record_entries_links:
  assumes "cache_ok (conversation_ttl_cache w)"
      and "distinct (map fst (links (conversation_ttl_cache w)) @ map fst rs)"
      and "\<forall>l\<in>set (links (conversation_ttl_cache w)). \<forall>r\<in>set rs. recorded_at r < snd (snd l)"
      and "sorted_wrt (\<lambda>r r'. recorded_at r' < recorded_at r + ttl (conversation_ttl_cache w)) rs"
  shows "links (conversation_ttl_cache (record_entries rs w))
           = drop (length (links (conversation_ttl_cache w)) + length rs
                     - maxsize (conversation_ttl_cache w))
               (links (conversation_ttl_cache w)
                  @ map (recorded_link (ttl (conversation_ttl_cache w))) rs)"
  using assms
proof (induction rs arbitrary: w)
  case Nil
  then show ?case by (simp add: cache_ok_def)
next
  case (Cons r rs)
  obtain ct time ui ctx resp where r: "r = (ct, time, ui, ctx, resp)" by (cases r)
  let ?c = "conversation_ttl_cache w"
  let ?new = "(ct, recorded_entry r, time + ttl ?c)"
  let ?d = "length (links ?c) + 1 - maxsize ?c"
  let ?c' = "?c\<lparr>links := drop ?d (links ?c @ [?new])\<rparr>"
  let ?w' = "w\<lparr>conversation_ttl_cache := ?c'\<rparr>"
  have ok: "cache_ok ?c" by (rule Cons.prems(1))
  then have m: "1 \<le> maxsize ?c" "length (links ?c) \<le> maxsize ?c" by (simp_all add: cache_ok_def)
  have fresh: "ct \<notin> set (map fst (links ?c))" using Cons.prems(2) r by auto
  have live: "\<forall>l\<in>set (links ?c). time < snd (snd l)"
    using Cons.prems(3) r by (simp add: recorded_at_def)
  have set_c': "snd (ttl_setitem time ct (recorded_entry r) ?c) = ?c'"
    using ok fresh live by (rule ttl_setitem_fresh_key)
  have w': "snd (add_to_conversation_cache ct time ui ctx resp w) = ?w'"
    using add_to_conversation_cache_world [OF ok] set_c' r by simp
  have ok': "cache_ok (conversation_ttl_cache ?w')"
    using ttl_setitem_ok [OF ok, of time ct "recorded_entry r"] set_c' by simp
  have sub: "set (links ?c') \<subseteq> set (links ?c) \<union> {?new}"
    using set_drop_subset [of ?d "links ?c @ [?new]"] by auto
  have d1: "distinct (map fst (links ?c @ [?new]) @ map fst rs)"
    using Cons.prems(2) r by auto
  have "distinct (drop ?d (map fst (links ?c @ [?new])) @ map fst rs)"
    using d1 by (rule distinct_drop_append)
  then have "distinct (map fst (drop ?d (links ?c @ [?new])) @ map fst rs)"
    by (simp only: drop_map)
  then have dist': "distinct (map fst (links (conversation_ttl_cache ?w')) @ map fst rs)" by simp
  have live': "\<forall>l\<in>set (links (conversation_ttl_cache ?w')). \<forall>r\<in>set rs. recorded_at r < snd (snd l)"
  proof (intro ballI)
    fix l r' assume l: "l \<in> set (links (conversation_ttl_cache ?w'))" and r': "r' \<in> set rs"
    from l sub have "l \<in> set (links ?c) \<or> l = ?new" by auto
    then show "recorded_at r' < snd (snd l)"
    proof
      assume "l \<in> set (links ?c)"
      with Cons.prems(3) r' show ?thesis by simp
    next
      assume "l = ?new"
      moreover have "recorded_at r' < recorded_at r + ttl ?c" using Cons.prems(4) r' by simp
      ultimately show ?thesis using r by (simp add: recorded_at_def)
    qed
  qed
  have sorted': "sorted_wrt (\<lambda>r r'. recorded_at r' < recorded_at r + ttl (conversation_ttl_cache ?w')) rs"
    using Cons.prems(4) by simp
  have "links (conversation_ttl_cache (record_entries (r # rs) w))
          = links (conversation_ttl_cache (record_entries rs ?w'))"
    using w' r by simp
  also have "\<dots> = drop (length (links ?c') + length rs - maxsize ?c)
                      (links ?c' @ map (recorded_link (ttl ?c)) rs)"
    using Cons.IH [OF ok' dist' live' sorted'] by simp
  also have "\<dots> = drop (length (links ?c) + length (r # rs) - maxsize ?c)
                      (links ?c @ map (recorded_link (ttl ?c)) (r # rs))"
  proof (cases "length (links ?c) = maxsize ?c")
    case True
    with m(1) obtain l ls where l: "links ?c = l # ls" by (cases "links ?c") auto
    with True show ?thesis using r
      by (simp add: recorded_link_def recorded_at_def)
  next
    case False
    with m(2) have "?d = 0" by simp
    then show ?thesis using r False m(2)
      by (simp add: recorded_link_def recorded_at_def)
  qed
  finally show ?case .
qed


lemma ttl_setitem_sources:
  assumes "cache_ok c"
  shows "set (links (snd (ttl_setitem time key val c)))
           \<subseteq> {l \<in> set (links c). fst l \<noteq> key} \<union> {(key, val, time + ttl c)}"
proof -
  let ?live = "dropWhile (\<lambda>l. \<not> time < snd (snd l)) (links c)"
  from assms have a: "1 \<le> maxsize c" "length (links c) \<le> maxsize c"
    by (simp_all add: cache_ok_def)
  define kept where
    "kept = (if key \<notin> set (map fst ?live) \<and> length ?live = maxsize c then tl ?live else ?live)"
  have "set (tl ?live) \<subseteq> set ?live" by (metis list.set_sel(2) subsetI tl_Nil)
  moreover have "set ?live \<subseteq> set (links c)" by (blast dest: set_dropWhileD)
  ultimately have "set kept \<subseteq> set (links c)"
    by (auto simp: kept_def)
  moreover have "links (snd (ttl_setitem time key val c))
                   = filter (\<lambda>l. fst l \<noteq> key) kept @ [(key, val, time + ttl c)]"
    by (simp add: ttl_setitem_links [OF a] Let_def kept_def)
  ultimately show ?thesis by auto
qed

lemma ttl_setitem_fields:
  assumes "cache_ok c"
  shows "ttl (snd (ttl_setitem time key val c)) = ttl c"
    and "maxsize (snd (ttl_setitem time key val c)) = maxsize c"
proof -
  from assms have a: "1 \<le> maxsize c" "length (links c) \<le> maxsize c"
    by (simp_all add: cache_ok_def)
  show "ttl (snd (ttl_setitem time key val c)) = ttl c"
    and "maxsize (snd (ttl_setitem time key val c)) = maxsize c"
    by (simp_all add: ttl_setitem_links [OF a])
qed

lemma add_to_conversation_cache_keyed:
  assumes "cache_ok (conversation_ttl_cache w)" and "keyed_by_timestamp (conversation_ttl_cache w)"
  shows "keyed_by_timestamp
           (conversation_ttl_cache (snd (add_to_conversation_cache ct time ui ctx resp w)))"
proof -
  let ?e = "recorded_entry (ct, time, ui, ctx, resp)"
  have "timestamp (fst (snd l)) = Some (fst l)"
    if "l \<in> set (links (snd (ttl_setitem time ct ?e (conversation_ttl_cache w))))" for l
  proof -
    from that ttl_setitem_sources [OF assms(1), of time ct ?e]
    have "l \<in> set (links (conversation_ttl_cache w)) \<or> l = (ct, ?e, time + ttl (conversation_ttl_cache w))"
      by auto
    then show ?thesis
      using assms(2) by (auto simp: keyed_by_timestamp_def list_all_iff recorded_entry_def)
  qed
  then show ?thesis
    by (simp add: add_to_conversation_cache_world [OF assms(1)] keyed_by_timestamp_def list_all_iff)
qed

lemma record_entries_keep:
  assumes "cache_ok (conversation_ttl_cache w)" and "keyed_by_timestamp (conversation_ttl_cache w)"
  shows "keyed_by_timestamp (conversation_ttl_cache (record_entries rs w))
       \<and> (\<forall>l\<in>set (links (conversation_ttl_cache (record_entries rs w))).
             fst l \<in> set (map fst rs) \<or> l \<in> set (links (conversation_ttl_cache w)))"
  using assms
proof (induction rs arbitrary: w)
  case Nil
  then show ?case by simp
next
  case (Cons r rs)
  obtain ct time ui ctx resp where r: "r = (ct, time, ui, ctx, resp)" by (cases r)
  let ?w' = "snd (add_to_conversation_cache ct time ui ctx resp w)"
  let ?e = "recorded_entry (ct, time, ui, ctx, resp)"
  have w': "conversation_ttl_cache ?w' = snd (ttl_setitem time ct ?e (conversation_ttl_cache w))"
    by (simp add: add_to_conversation_cache_world [OF Cons.prems(1)])
  have ok': "cache_ok (conversation_ttl_cache ?w')"
    using ttl_setitem_ok [OF Cons.prems(1), of time ct ?e] w' by simp
  have keyed': "keyed_by_timestamp (conversation_ttl_cache ?w')"
    using Cons.prems by (rule add_to_conversation_cache_keyed)
  from Cons.IH [OF ok' keyed']
  have k: "keyed_by_timestamp (conversation_ttl_cache (record_entries rs ?w'))"
    and src: "\<forall>l\<in>set (links (conversation_ttl_cache (record_entries rs ?w'))).
             fst l \<in> set (map fst rs) \<or> l \<in> set (links (conversation_ttl_cache ?w'))"
    by simp_all
  have "fst l \<in> set (map fst (r # rs)) \<or> l \<in> set (links (conversation_ttl_cache w))"
    if "l \<in> set (links (conversation_ttl_cache (record_entries rs ?w')))" for l
  proof -
    from src that have "fst l \<in> set (map fst rs) \<or> l \<in> set (links (conversation_ttl_cache ?w'))"
      by blast
    moreover have "fst l = ct \<or> l \<in> set (links (conversation_ttl_cache w))"
      if "l \<in> set (links (conversation_ttl_cache ?w'))"
      using that ttl_setitem_sources [OF Cons.prems(1), of time ct ?e] w' by auto
    ultimately show ?thesis using r by auto
  qed
  with k r show ?case by simp
qed

text \<open>
  Claim C4, as the code has it. For a memory of capacity \<open>C\<close> and expiry \<open>E\<close>: recording
  \<open>C + 1\<close> entries into the empty memory, under pairwise distinct timestamps and each less
  than \<open>E\<close> after every earlier one, leaves in a snapshot taken less than \<open>E\<close> after each of
  them exactly the last \<open>C\<close> entries, in order (the oldest is evicted). And an entry recorded at
  \<open>time\<close> is absent from every snapshot taken after \<open>time + E\<close>, whatever is recorded under
  other timestamps in between: no eviction call is needed.
\<close>

theorem ttl_memory_capacity_and_expiry:
  assumes "cache_ok (conversation_ttl_cache w)"
  shows "(links (conversation_ttl_cache w) = []
          \<and> length rs = maxsize (conversation_ttl_cache w) + 1
          \<and> distinct (map fst rs)
          \<and> sorted_wrt (\<lambda>r r'. recorded_at r' < recorded_at r + ttl (conversation_ttl_cache w)) rs
          \<and> (\<forall>r\<in>set rs. t < recorded_at r + ttl (conversation_ttl_cache w))
          \<longrightarrow> snapshot t (record_entries rs w) = map recorded_entry (tl rs))
       \<and> (keyed_by_timestamp (conversation_ttl_cache w)
          \<and> ct \<notin> set (map fst later)
          \<and> time + ttl (conversation_ttl_cache w) < tr
          \<longrightarrow> recorded_entry (ct, time, ui, ctx, resp)
                \<notin> set (snapshot tr
                        (record_entries later
                           (snd (add_to_conversation_cache ct time ui ctx resp w)))))"
proof (intro conjI impI)
  let ?c = "conversation_ttl_cache w"
  assume h: "links ?c = [] \<and> length rs = maxsize ?c + 1 \<and> distinct (map fst rs)
          \<and> sorted_wrt (\<lambda>r r'. recorded_at r' < recorded_at r + ttl ?c) rs
          \<and> (\<forall>r\<in>set rs. t < recorded_at r + ttl ?c)"
  then have "links (conversation_ttl_cache (record_entries rs w))
               = drop (length (links ?c) + length rs - maxsize ?c)
                   (links ?c @ map (recorded_link (ttl ?c)) rs)"
    using assms by (intro record_entries_links) simp_all
  with h have l: "links (conversation_ttl_cache (record_entries rs w))
               = map (recorded_link (ttl ?c)) (tl rs)"
    by (simp add: drop_Suc map_tl)
  have "t < snd (snd (recorded_link (ttl ?c) r))" if "r \<in> set (tl rs)" for r
    using that h by (auto simp: recorded_link_def dest: list.set_sel(2) [rotated])
  then have "filter (\<lambda>l. t < snd (snd l)) (map (recorded_link (ttl ?c)) (tl rs))
               = map (recorded_link (ttl ?c)) (tl rs)"
    by (intro filter_True) auto
  with l show "snapshot t (record_entries rs w) = map recorded_entry (tl rs)"
    by (simp add: snapshot_def ttl_values_def recorded_link_def o_def)
next
  let ?c = "conversation_ttl_cache w"
  let ?e = "recorded_entry (ct, time, ui, ctx, resp)"
  let ?w1 = "snd (add_to_conversation_cache ct time ui ctx resp w)"
  let ?wn = "record_entries later ?w1"
  assume h: "keyed_by_timestamp ?c \<and> ct \<notin> set (map fst later) \<and> time + ttl ?c < tr"
  have c1: "conversation_ttl_cache ?w1 = snd (ttl_setitem time ct ?e ?c)"
    by (simp add: add_to_conversation_cache_world [OF assms])
  have ok1: "cache_ok (conversation_ttl_cache ?w1)"
    using ttl_setitem_ok [OF assms, of time ct ?e] c1 by simp
  have keyed1: "keyed_by_timestamp (conversation_ttl_cache ?w1)"
    using assms h by (intro add_to_conversation_cache_keyed) simp_all
  from record_entries_keep [OF ok1 keyed1, of later]
  have keyedn: "keyed_by_timestamp (conversation_ttl_cache ?wn)"
    and src: "\<forall>l\<in>set (links (conversation_ttl_cache ?wn)).
                fst l \<in> set (map fst later) \<or> l \<in> set (links (conversation_ttl_cache ?w1))"
    by simp_all
  show "?e \<notin> set (snapshot tr ?wn)"
  proof
    assume "?e \<in> set (snapshot tr ?wn)"
    then obtain l where l: "l \<in> set (links (conversation_ttl_cache ?wn))"
      and v: "fst (snd l) = ?e" and live: "tr < snd (snd l)"
      by (auto simp: snapshot_def ttl_values_def)
    from keyedn l v have "fst l = ct"
      by (auto simp: keyed_by_timestamp_def list_all_iff recorded_entry_def)
    with src l h have "l \<in> set (links (conversation_ttl_cache ?w1))" by auto
    with ttl_setitem_sources [OF assms, of time ct ?e] c1 \<open>fst l = ct\<close>
    have "l = (ct, ?e, time + ttl ?c)" by auto
    with live h show False by simp
  qed
qed

lemma small_memory_cache:
  "conversation_ttl_cache small_memory_world = \<lparr>maxsize = 2, ttl = 1800, links = []\<rparr>"
  by (simp add: small_memory_world_def initial_world_def)

theorem ttl_memory_capacity_and_expiry_witness:
  "cache_ok (conversation_ttl_cache small_memory_world) \<and>
   links (conversation_ttl_cache small_memory_world) = [] \<and>
   length three_recordings = maxsize (conversation_ttl_cache small_memory_world) + 1 \<and>
   distinct (map fst three_recordings) \<and>
   sorted_wrt (\<lambda>r r'. recorded_at r' < recorded_at r + ttl (conversation_ttl_cache small_memory_world))
     three_recordings \<and>
   list_all (\<lambda>r. 3 < recorded_at r + ttl (conversation_ttl_cache small_memory_world))
     three_recordings \<and>
   snapshot 3 (record_entries three_recordings small_memory_world)
     = [recorded_entry (''09:00:01'', 1, ''second'', ''ctx'', ''two''),
        recorded_entry (''09:00:02'', 2, ''third'', ''ctx'', ''three'')] \<and>
   keyed_by_timestamp (conversation_ttl_cache small_memory_world) \<and>
   ''09:00:00'' \<notin> set (map fst (tl three_recordings)) \<and>
   0 + ttl (conversation_ttl_cache small_memory_world) < 1801 \<and>
   recorded_entry (''09:00:00'', 0, ''first'', ''ctx'', ''one'')
     \<notin> set (snapshot 1801
              (record_entries (tl three_recordings)
                 (snd (add_to_conversation_cache ''09:00:00'' 0 ''first'' ''ctx'' ''one''
                         small_memory_world))))"
proof -
  let ?c = "conversation_ttl_cache small_memory_world"
  have ok: "cache_ok ?c" by (simp add: cache_ok_def small_memory_cache)
  have h1: "links ?c = []" by (simp add: small_memory_cache)
  have h2: "length three_recordings = maxsize ?c + 1"
    by (simp add: small_memory_cache three_recordings_def)
  have h3: "distinct (map fst three_recordings)" by (simp add: three_recordings_def)
  have h4: "sorted_wrt (\<lambda>r r'. recorded_at r' < recorded_at r + ttl ?c) three_recordings"
    by (simp add: small_memory_cache three_recordings_def recorded_at_def)
  have h5: "\<forall>r\<in>set three_recordings. 3 < recorded_at r + ttl ?c"
    by (simp add: small_memory_cache three_recordings_def recorded_at_def)
  have h6: "keyed_by_timestamp ?c" by (simp add: keyed_by_timestamp_def small_memory_cache)
  have h7: "''09:00:00'' \<notin> set (map fst (tl three_recordings))"
    by (simp add: three_recordings_def)
  have h8: "0 + ttl ?c < 1801" by (simp add: small_memory_cache)
  note inst = ttl_memory_capacity_and_expiry [OF ok, where rs = three_recordings and t = 3
      and ct = "''09:00:00''" and later = "tl three_recordings" and time = 0 and tr = 1801
      and ui = "''first''" and ctx = "''ctx''" and resp = "''one''"]
  from inst h1 h2 h3 h4 h5
  have "snapshot 3 (record_entries three_recordings small_memory_world)
          = map recorded_entry (tl three_recordings)"
    by blast
  then have c1: "snapshot 3 (record_entries three_recordings small_memory_world)
     = [recorded_entry (''09:00:01'', 1, ''second'', ''ctx'', ''two''),
        recorded_entry (''09:00:02'', 2, ''third'', ''ctx'', ''three'')]"
    by (simp add: three_recordings_def)
  from inst h6 h7 h8
  have c2: "recorded_entry (''09:00:00'', 0, ''first'', ''ctx'', ''one'')
     \<notin> set (snapshot 1801
              (record_entries (tl three_recordings)
                 (snd (add_to_conversation_cache ''09:00:00'' 0 ''first'' ''ctx'' ''one''
                         small_memory_world))))"
    by blast
  from h5 have h5': "list_all (\<lambda>r. 3 < recorded_at r + ttl ?c) three_recordings"
    by (simp add: list_all_iff)
  from ok h1 h2 h3 h4 h5' c1 h6 h7 h8 c2 show ?thesis by blast
qed

text \<open>
  Claim C4 as stated fails when recordings share a timestamp: three recordings under one
  timestamp into the empty memory of capacity 2, none expired, leave one entry, not two.
\<close>

theorem ttl_memory_capacity_counterexample:
  "length same_instant_recordings = maxsize (conversation_ttl_cache small_memory_world) + 1 \<and>
   snapshot 3 (record_entries same_instant_recordings small_memory_world)
     = [recorded_entry (''09:00:00'', 2, ''third'', ''ctx'', ''three'')]"
  by code_simp

text \<open>
  Claim C9. Two entries recorded under the same timestamp: after the second recording the
  cache holds exactly one item under that key, the second entry, and it holds no more items
  than after the first recording. So two recordings can leave one entry, with nothing
  expired and the capacity not reached.
\<close>

theorem same_timestamp_overwrites:
  assumes "cache_ok (conversation_ttl_cache w)"
      and "add_to_conversation_cache ct t1 ui1 ctx1 resp1 w = (r1, wa)"
      and "add_to_conversation_cache ct t2 ui2 ctx2 resp2 wa = (r2, wb)"
  shows "filter (\<lambda>l. fst l = ct) (links (conversation_ttl_cache wb))
           = [(ct, recorded_entry (ct, t2, ui2, ctx2, resp2), t2 + ttl (conversation_ttl_cache w))]
       \<and> length (links (conversation_ttl_cache wb)) \<le> length (links (conversation_ttl_cache wa))"
proof -
  let ?c = "conversation_ttl_cache w"
  let ?ca = "conversation_ttl_cache wa"
  let ?e1 = "recorded_entry (ct, t1, ui1, ctx1, resp1)"
  let ?e2 = "recorded_entry (ct, t2, ui2, ctx2, resp2)"
  let ?live = "dropWhile (\<lambda>l. \<not> t2 < snd (snd l)) (links ?ca)"
  have ca: "?ca = snd (ttl_setitem t1 ct ?e1 ?c)"
    using assms(2) by (auto simp: add_to_conversation_cache_world [OF assms(1)])
  have oka: "cache_ok ?ca" using ttl_setitem_ok [OF assms(1), of t1 ct ?e1] ca by simp
  then have a: "1 \<le> maxsize ?ca" "length (links ?ca) \<le> maxsize ?ca"
    by (simp_all add: cache_ok_def)
  have ttla: "ttl ?ca = ttl ?c" using ca ttl_setitem_fields(1) [OF assms(1)] by simp
  have cb: "conversation_ttl_cache wb = snd (ttl_setitem t2 ct ?e2 ?ca)"
    using assms(3) by (auto simp: add_to_conversation_cache_world [OF oka])
  define kept where
    "kept = (if ct \<notin> set (map fst ?live) \<and> length ?live = maxsize ?ca then tl ?live else ?live)"
  have lb: "links (conversation_ttl_cache wb)
              = filter (\<lambda>l. fst l \<noteq> ct) kept @ [(ct, ?e2, t2 + ttl ?c)]"
    by (simp add: cb ttl_setitem_links [OF a] Let_def kept_def ttla)
  have "filter (\<lambda>l. fst l = ct) (filter (\<lambda>l. fst l \<noteq> ct) kept) = []"
    by (simp add: filter_empty_conv)
  with lb have one: "filter (\<lambda>l. fst l = ct) (links (conversation_ttl_cache wb))
           = [(ct, ?e2, t2 + ttl ?c)]"
    by simp
  have last_a: "links ?ca \<noteq> [] \<and> fst (last (links ?ca)) = ct"
  proof -
    from assms(1) have "1 \<le> maxsize ?c" "length (links ?c) \<le> maxsize ?c"
      by (simp_all add: cache_ok_def)
    then show ?thesis by (simp add: ca ttl_setitem_links Let_def)
  qed
  have "length (filter (\<lambda>l. fst l \<noteq> ct) kept) + 1 \<le> length (links ?ca)"
  proof (cases "ct \<in> set (map fst ?live)")
    case True
    then obtain l where "l \<in> set ?live" "fst l = ct" by auto
    then have "length (filter (\<lambda>l. fst l \<noteq> ct) ?live) < length ?live"
      by (intro length_filter_less) auto
    moreover have "length ?live \<le> length (links ?ca)" by (rule length_dropWhile_le)
    ultimately show ?thesis using True by (simp add: kept_def)
  next
    case False
    have "?live = []"
    proof (rule ccontr)
      assume ne: "?live \<noteq> []"
      have "\<exists>pre. links ?ca = pre @ ?live"
        by (metis takeWhile_dropWhile_id)
      with ne have "last ?live = last (links ?ca)" by (metis last_appendR)
      moreover from ne have "fst (last ?live) \<in> set (map fst ?live)" by simp
      ultimately have "ct \<in> set (map fst ?live)" using last_a by simp
      with False show False by contradiction
    qed
    with last_a show ?thesis
      by (cases "links ?ca") (simp_all add: kept_def)
  qed
  with lb have "length (links (conversation_ttl_cache wb)) \<le> length (links ?ca)" by simp
  with one show ?thesis by simp
qed

theorem same_timestamp_overwrites_witness:
  "cache_ok (conversation_ttl_cache (initial_world :: (string list, nat list) world)) \<and>
   add_to_conversation_cache ''09:00:00'' 0 ''first'' ''ctx'' ''one''
       (initial_world :: (string list, nat list) world)
     = (Inr (), record_entries (take 1 same_instant_recordings) initial_world) \<and>
   add_to_conversation_cache ''09:00:00'' 1 ''second'' ''ctx'' ''two''
       (record_entries (take 1 same_instant_recordings) (initial_world :: (string list, nat list) world))
     = (Inr (), record_entries (take 2 same_instant_recordings) initial_world) \<and>
   filter (\<lambda>l. fst l = ''09:00:00'')
       (links (conversation_ttl_cache
          (record_entries (take 2 same_instant_recordings)
             (initial_world :: (string list, nat list) world))))
     = [(''09:00:00'', recorded_entry (''09:00:00'', 1, ''second'', ''ctx'', ''two''), 1801)] \<and>
   snapshot 2 (record_entries (take 2 same_instant_recordings)
                 (initial_world :: (string list, nat list) world))
     = [recorded_entry (''09:00:00'', 1, ''second'', ''ctx'', ''two'')]"
proof -
  let ?w = "initial_world :: (string list, nat list) world"
  let ?wa = "record_entries (take 1 same_instant_recordings) ?w"
  let ?wb = "record_entries (take 2 same_instant_recordings) ?w"
  have ok: "cache_ok (conversation_ttl_cache ?w)"
    by (simp add: cache_ok_def initial_world_def)
  have h1: "add_to_conversation_cache ''09:00:00'' 0 ''first'' ''ctx'' ''one'' ?w = (Inr (), ?wa)"
    by code_simp
  have h2: "add_to_conversation_cache ''09:00:00'' 1 ''second'' ''ctx'' ''two'' ?wa = (Inr (), ?wb)"
    by code_simp
  from same_timestamp_overwrites [OF ok h1 h2]
  have "filter (\<lambda>l. fst l = ''09:00:00'') (links (conversation_ttl_cache ?wb))
        = [(''09:00:00'', recorded_entry (''09:00:00'', 1, ''second'', ''ctx'', ''two''), 1801)]"
    by (simp add: initial_world_def)
  moreover have "snapshot 2 ?wb = [recorded_entry (''09:00:00'', 1, ''second'', ''ctx'', ''two'')]"
    by code_simp
  ultimately show ?thesis using ok h1 h2 by blast
qed

section \<open>Properties of the conversation rounds\<close>

subsection \<open>What a round sends to retrieval and to the generation service\<close>

lemma find_best_matches_world:
  "snd (find_best_matches env q n w) = w\<lparr>calls := calls w @ [FindBestMatches q n]\<rparr>"
  by (simp add: find_best_matches_def Let_def split: sum.splits)

lemma get_cohere_response_world:
  "snd (get_cohere_response env q c w) = w\<lparr>calls := calls w @ [CoChat (chat_messages q c)]\<rparr>"
  by (simp add: get_cohere_response_def Let_def split: sum.splits)

lemma process_chat_world:
  "snd (process_chat env q w) =
     w\<lparr>calls := calls w @ FindBestMatches q NUMBER_OF_MATCHES #
        (case fst (find_best_matches env q NUMBER_OF_MATCHES w) of
           Inl e \<Rightarrow> []
         | Inr (original_best_matches, processed_best_matches) \<Rightarrow>
             [CoChat (chat_messages q (py_join [CHR 0x0A, CHR 0x0A] original_best_matches))])\<rparr>"
proof -
  obtain r w1 where f: "find_best_matches env q NUMBER_OF_MATCHES w = (r, w1)"
    by (cases "find_best_matches env q NUMBER_OF_MATCHES w")
  then have w1: "w1 = w\<lparr>calls := calls w @ [FindBestMatches q NUMBER_OF_MATCHES]\<rparr>"
    using find_best_matches_world [of env q NUMBER_OF_MATCHES w] by simp
  show ?thesis
  proof (cases r)
    case (Inl e)
    with f w1 show ?thesis by (simp add: process_chat_def)
  next
    case (Inr p)
    obtain obm pbm where p: "p = (obm, pbm)" by (cases p)
    obtain g w2 where g: "get_cohere_response env q (py_join [CHR 0x0A, CHR 0x0A] obm) w1 = (g, w2)"
      by (cases "get_cohere_response env q (py_join [CHR 0x0A, CHR 0x0A] obm) w1")
    then have "w2 = w1\<lparr>calls := calls w1 @ [CoChat (chat_messages q (py_join [CHR 0x0A, CHR 0x0A] obm))]\<rparr>"
      using get_cohere_response_world [of env q "py_join [CHR 0x0A, CHR 0x0A] obm" w1] by simp
    with f Inr p g w1 show ?thesis
      by (cases g) (simp_all add: process_chat_def Let_def)
  qed
qed


text \<open>
  Claim C1, as the code has it. In both memory-aware operations the first call of a round
  is \<open>find_best_matches\<close> on the composite query: the preamble, the serialized history and
  the user's query. When that call fails nothing is sent to the generation service; when it
  returns, exactly one request is sent, with the joined matches as context and the same
  composite query as the user message. The raw user query is submitted to neither.
\<close>

theorem conversation_submits_composite_query:
  fixes env :: "('m, 'v, 's::linorder) libs"
  shows "calls (snd (conversation env user_query w))
           = calls w @
             FindBestMatches (compose_query (render_history (conversation_history w)) user_query)
               NUMBER_OF_MATCHES #
             (case fst (find_best_matches env
                          (compose_query (render_history (conversation_history w)) user_query)
                          NUMBER_OF_MATCHES w) of
                Inl e \<Rightarrow> []
              | Inr (original_best_matches, processed_best_matches) \<Rightarrow>
                  [CoChat
                     [(''system'', SYSTEM_PROMPT),
                      (''system'', py_join [CHR 0x0A, CHR 0x0A] original_best_matches),
                      (''user'',
                       compose_query (render_history (conversation_history w)) user_query)]])
       \<and> calls (snd (conversation_cache env read_time current_time write_time user_query w))
           = calls w @
             FindBestMatches (compose_query (render_history (snapshot read_time w)) user_query)
               NUMBER_OF_MATCHES #
             (case fst (find_best_matches env
                          (compose_query (render_history (snapshot read_time w)) user_query)
                          NUMBER_OF_MATCHES w) of
                Inl e \<Rightarrow> []
              | Inr (original_best_matches, processed_best_matches) \<Rightarrow>
                  [CoChat
                     [(''system'', SYSTEM_PROMPT),
                      (''system'', py_join [CHR 0x0A, CHR 0x0A] original_best_matches),
                      (''user'',
                       compose_query (render_history (snapshot read_time w)) user_query)]])"
proof -
  have c1: "calls (snd (conversation env user_query w))
              = calls (snd (process_chat env
                  (compose_query (render_history (conversation_history w)) user_query) w))"
    by (simp add: conversation_def Let_def add_to_conversation_def split: prod.splits sum.splits)
  have c2: "calls (snd (conversation_cache env read_time current_time write_time user_query w))
              = calls (snd (process_chat env
                  (compose_query (render_history (snapshot read_time w)) user_query) w))"
    by (simp add: conversation_cache_def Let_def add_to_conversation_cache_def snapshot_def
        split: prod.splits sum.splits option.splits)
  show ?thesis
    unfolding c1 c2
    by (auto simp: process_chat_world chat_messages_def split: sum.splits prod.splits)
qed

text \<open>
  Claim C1 as stated fails: after one round, the second round searches with the composite
  query that embeds the first round's entry, not with the raw query \<open>Who ran?\<close>.
\<close>

theorem conversation_retrieval_text_counterexample:
  "map user_input (conversation_history one_round_world) = [''Who sat?''] \<and>
   hd (drop (length (calls one_round_world))
         (calls (snd (conversation sample_env ''Who ran?'' one_round_world))))
     = FindBestMatches
         (compose_query (render_history (conversation_history one_round_world)) ''Who ran?'') 3 \<and>
   compose_query (render_history (conversation_history one_round_world)) ''Who ran?''
     \<noteq> ''Who ran?''"
  by code_simp

subsection \<open>A failing generation call\<close>

lemma process_chat_memory:
  "conversation_history (snd (process_chat env q w)) = conversation_history w
   \<and> conversation_ttl_cache (snd (process_chat env q w)) = conversation_ttl_cache w"
  by (simp add: process_chat_world)

lemma generation_fails_process_chat:
  assumes "generation_fails env q w"
  shows "isl (fst (process_chat env q w))"
proof -
  obtain r wf where f: "find_best_matches env q NUMBER_OF_MATCHES w = (r, wf)"
    by (cases "find_best_matches env q NUMBER_OF_MATCHES w")
  with assms obtain obm pbm where r: "r = Inr (obm, pbm)"
    and c: "isl (co_chat env (chat_messages q (py_join [CHR 0x0A, CHR 0x0A] obm)))"
    by (cases r) (auto simp: generation_fails_def)
  from c obtain e where "co_chat env (chat_messages q (py_join [CHR 0x0A, CHR 0x0A] obm)) = Inl e"
    by (auto simp: isl_def)
  with f r show ?thesis
    by (simp add: process_chat_def get_cohere_response_def Let_def)
qed

lemma conversation_on_error:
  assumes "isl (fst (process_chat env (compose_query (render_history (conversation_history w)) user_query) w))"
  shows "conversation env user_query w
           = (Inl (projl (fst (process_chat env
                 (compose_query (render_history (conversation_history w)) user_query) w))),
              snd (process_chat env
                 (compose_query (render_history (conversation_history w)) user_query) w))"
  using assms
  by (cases "process_chat env (compose_query (render_history (conversation_history w)) user_query) w")
     (auto simp: conversation_def Let_def isl_def)

lemma conversation_cache_on_error:
  assumes "isl (fst (process_chat env (compose_query (render_history (snapshot read_time w)) user_query) w))"
  shows "conversation_cache env read_time current_time write_time user_query w
           = (Inl (projl (fst (process_chat env
                 (compose_query (render_history (snapshot read_time w)) user_query) w))),
              snd (process_chat env
                 (compose_query (render_history (snapshot read_time w)) user_query) w))"
  using assms
  by (cases "process_chat env (compose_query (render_history (snapshot read_time w)) user_query) w")
     (auto simp: conversation_cache_def snapshot_def Let_def isl_def)

text \<open>
  Claim C7. When the generation call of a round raises, the round returns an error, and the
  list-based history and the cache are what they were before the round; this holds for
  \<open>conversation\<close> and for \<open>conversation_cache\<close>.
\<close>

theorem failed_generation_records_nothing:
  fixes env :: "('m, 'v, 's::linorder) libs"
  shows "(generation_fails env
            (compose_query (render_history (conversation_history w)) user_query) w
          \<longrightarrow> isl (fst (conversation env user_query w))
            \<and> conversation_history (snd (conversation env user_query w))
                = conversation_history w
            \<and> conversation_ttl_cache (snd (conversation env user_query w))
                = conversation_ttl_cache w)
       \<and> (generation_fails env
            (compose_query (render_history (snapshot read_time w)) user_query) w
          \<longrightarrow> isl (fst (conversation_cache env read_time current_time write_time user_query w))
            \<and> conversation_history
                 (snd (conversation_cache env read_time current_time write_time user_query w))
                = conversation_history w
            \<and> conversation_ttl_cache
                 (snd (conversation_cache env read_time current_time write_time user_query w))
                = conversation_ttl_cache w)"
proof (intro conjI impI)
  let ?q = "compose_query (render_history (conversation_history w)) user_query"
  assume "generation_fails env ?q w"
  then have e: "isl (fst (process_chat env ?q w))" by (rule generation_fails_process_chat)
  show "isl (fst (conversation env user_query w))"
    by (simp add: conversation_on_error [OF e])
  show "conversation_history (snd (conversation env user_query w)) = conversation_history w"
    by (simp add: conversation_on_error [OF e] process_chat_memory)
  show "conversation_ttl_cache (snd (conversation env user_query w)) = conversation_ttl_cache w"
    by (simp add: conversation_on_error [OF e] process_chat_memory)
next
  let ?q = "compose_query (render_history (snapshot read_time w)) user_query"
  let ?r = "conversation_cache env read_time current_time write_time user_query w"
  assume "generation_fails env ?q w"
  then have e: "isl (fst (process_chat env ?q w))" by (rule generation_fails_process_chat)
  show "isl (fst ?r)"
    by (simp add: conversation_cache_on_error [OF e])
  show "conversation_history (snd ?r) = conversation_history w"
    by (simp add: conversation_cache_on_error [OF e] process_chat_memory)
  show "conversation_ttl_cache (snd ?r) = conversation_ttl_cache w"
    by (simp add: conversation_cache_on_error [OF e] process_chat_memory)
qed

theorem failed_generation_records_nothing_witness:
  "generation_fails outage_env
     (compose_query (render_history (conversation_history one_round_world)) ''Who ran?'')
     one_round_world \<and>
   generation_fails outage_env
     (compose_query (render_history (snapshot 3 two_entry_world)) ''Who ran?'') two_entry_world \<and>
   fst (conversation outage_env ''Who ran?'' one_round_world) = Inl UpstreamError \<and>
   conversation_history (snd (conversation outage_env ''Who ran?'' one_round_world))
     = conversation_history one_round_world \<and>
   fst (conversation_cache outage_env 3 ''09:00:03'' 4 ''Who ran?'' two_entry_world)
     = Inl UpstreamError \<and>
   conversation_ttl_cache (snd (conversation_cache outage_env 3 ''09:00:03'' 4 ''Who ran?'' two_entry_world))
     = conversation_ttl_cache two_entry_world"
proof -
  have h1: "generation_fails outage_env
     (compose_query (render_history (conversation_history one_round_world)) ''Who ran?'')
     one_round_world"
    by code_simp
  have h2: "generation_fails outage_env
     (compose_query (render_history (snapshot 3 two_entry_world)) ''Who ran?'') two_entry_world"
    by code_simp
  have e1: "fst (conversation outage_env ''Who ran?'' one_round_world) = Inl UpstreamError"
    by code_simp
  have e2: "fst (conversation_cache outage_env 3 ''09:00:03'' 4 ''Who ran?'' two_entry_world)
     = Inl UpstreamError"
    by code_simp
  from failed_generation_records_nothing [where env = outage_env and w = one_round_world
      and user_query = "''Who ran?''"] h1
  have m1: "conversation_history (snd (conversation outage_env ''Who ran?'' one_round_world))
     = conversation_history one_round_world"
    by blast
  from failed_generation_records_nothing [where env = outage_env and w = two_entry_world
      and user_query = "''Who ran?''" and read_time = 3 and current_time = "''09:00:03''"
      and write_time = 4] h2
  have m2: "conversation_ttl_cache
      (snd (conversation_cache outage_env 3 ''09:00:03'' 4 ''Who ran?'' two_entry_world))
     = conversation_ttl_cache two_entry_world"
    by blast
  from h1 h2 e1 e2 m1 m2 show ?thesis by blast
qed

subsection \<open>The reset tokens\<close>





end
